theory Spec2Isabelle
  imports Main "HOL-Library.Word"
begin

section \<open>Event ingestion and metrics queries of the event-metrics service\<close>

text \<open>
  A shallow embedding of the two use cases of the service and of their Postgres
  repositories:
  \<^item> \<^verbatim>\<open>internal/events/core/usecase/store_event_usecase.go\<close>: \<open>validateInput\<close>,
    \<open>buildDedupeKey\<close>, \<open>Execute\<close> (here \<open>StoreEvent_Execute\<close>) and \<open>BulkCreateEvents\<close>;
  \<^item> the events repository (\<open>InsertEvent\<close>);
  \<^item> the metrics use case (\<open>Execute\<close>, here \<open>GetMetrics_Execute\<close>) and the metrics repository
    (\<open>QueryMetrics\<close> and its three query functions).
  Go's \<open>int64\<close> is a 64-bit word compared with the signed orders \<open>\<le>s\<close> and \<open><s\<close>.
  A call that returns \<open>(value, error)\<close> returns a pair whose second component is
  \<open>None\<close> for a nil error. Collaborators behind an interface (the wall clock, the
  repository port, the database handle) are parameters or components of an explicit
  state that every call threads through.
\<close>

subsection \<open>Errors and time values\<close>

type_synonym int64 = "64 word"

text \<open>
  The sentinel errors of the two use-case packages; \<open>Fault\<close> is any error value made
  elsewhere (driver, JSON encoder, \<open>fmt.Errorf\<close>), identified by its message.
\<close>

datatype error =
    ErrInvalidEvent
  | ErrFutureTime
  | ErrInvalidMetricsQuery
  | ErrInvalidTimeRange
  | ErrInvalidGroupBy
  | ErrInvalidInterval
  | Fault string

datatype Location = Local | UTC

text \<open>
  A \<open>time.Time\<close> as far as the program looks at it: the Unix second, the nanoseconds
  within that second and the location.
\<close>

datatype Time = Time (unix_sec: int64) (nanos: nat) (location: Location)

text \<open>\<open>time.Unix(sec, 0)\<close>: every call site passes 0 nanoseconds.\<close>

definition time_Unix :: "int64 \<Rightarrow> Time" where
  "time_Unix s = Time s 0 Local"

definition Time_UTC :: "Time \<Rightarrow> Time" where
  "Time_UTC t = Time (unix_sec t) (nanos t) UTC"

definition Time_Unix :: "Time \<Rightarrow> int64" where
  "Time_Unix t = unix_sec t"

subsection \<open>Formatting\<close>

text \<open>
  The fragment of \<open>fmt.Sprintf\<close> that the program uses: the verbs \<open>%s\<close> on a string
  and \<open>%d\<close> on an \<open>int64\<close>, and literal text. Any other directive is outside the
  fragment and is copied as it stands.
\<close>

definition digits10 :: string where
  "digits10 = ''0123456789''"

fun nat_dec :: "nat \<Rightarrow> string" where
  "nat_dec n =
     (if n < 10 then [digits10 ! n] else nat_dec (n div 10) @ [digits10 ! (n mod 10)])"

declare nat_dec.simps [simp del]

definition FormatInt :: "int64 \<Rightarrow> string" where
  "FormatInt i =
     (if sint i < 0 then CHR ''-'' # nat_dec (nat (- sint i)) else nat_dec (nat (sint i)))"

datatype fmt_arg = S string | D int64

fun Sprintf :: "string \<Rightarrow> fmt_arg list \<Rightarrow> string" where
  "Sprintf [] args = []"
| "Sprintf [c] args = [c]"
| "Sprintf (c # v # fs) args =
     (if c = CHR ''%'' then
        (case args of
           S s # rest \<Rightarrow>
             (if v = CHR ''s'' then s @ Sprintf fs rest else c # Sprintf (v # fs) args)
         | D n # rest \<Rightarrow>
             (if v = CHR ''d'' then FormatInt n @ Sprintf fs rest
              else c # Sprintf (v # fs) args)
         | [] \<Rightarrow> c # Sprintf (v # fs) args)
      else c # Sprintf (v # fs) args)"

text \<open>
  Reading a decimal numeral back, and joining strings with a separator: the two notions
  that the description of the dedupe key is written in.
\<close>

definition digit_val :: "char \<Rightarrow> nat" where
  "digit_val c = of_char c - 48"

definition dec_nat :: "string \<Rightarrow> nat" where
  "dec_nat ds = foldl (\<lambda>a c. 10 * a + digit_val c) 0 ds"

definition dec_int :: "string \<Rightarrow> int" where
  "dec_int s = (case s of [] \<Rightarrow> 0
                | c # ds \<Rightarrow> if c = CHR ''-'' then - int (dec_nat ds) else int (dec_nat s))"

fun join :: "string \<Rightarrow> string list \<Rightarrow> string" where
  "join sep [] = []"
| "join sep [x] = x"
| "join sep (x # y # zs) = x @ sep @ join sep (y # zs)"

subsection \<open>The ingestion data model\<close>

text \<open>
  The fields of \<open>StoreEventInput\<close> carry the prefix \<open>in_\<close> and those of
  \<open>domain.Event\<close> the prefix \<open>ev_\<close>. A slice or map field is \<open>None\<close> when it is nil.
  The values of the metadata map (\<open>any\<close>) are of an arbitrary type \<open>'v\<close>.
\<close>

record 'v StoreEventInput =
  in_EventName :: string
  in_Channel :: string
  in_CampaignID :: string
  in_UserID :: string
  in_Timestamp :: int64
  in_Tags :: "string list option"
  in_Metadata :: "(string \<rightharpoonup> 'v) option"

record 'v Event =
  ev_EventName :: string
  ev_Channel :: string
  ev_CampaignID :: string
  ev_UserID :: string
  ev_EventTime :: Time
  ev_Tags :: "string list option"
  ev_Metadata :: "(string \<rightharpoonup> 'v) option"
  ev_DedupeKey :: string

text \<open>
  The state a use-case call runs in: the wall clock as the sequence of values that
  successive \<open>time.Now().Unix()\<close> calls return, the events handed to the repository
  port so far (in call order), and the state behind the port.
\<close>

record ('v, 's) world =
  now_readings :: "nat \<Rightarrow> int64"
  now_count :: nat
  insert_calls :: "'v Event list"
  store :: 's

type_synonym ('v, 's) EventRepositoryPort =
  "'v Event \<Rightarrow> 's \<Rightarrow> (bool \<times> error option) \<times> 's"

definition time_Now_Unix :: "('v, 's) world \<Rightarrow> int64 \<times> ('v, 's) world" where
  "time_Now_Unix w = (now_readings w (now_count w), w\<lparr>now_count := Suc (now_count w)\<rparr>)"

definition repo_InsertEvent ::
  "('v, 's) EventRepositoryPort \<Rightarrow> 'v Event \<Rightarrow> ('v, 's) world
     \<Rightarrow> (bool \<times> error option) \<times> ('v, 's) world" where
  "repo_InsertEvent repo e w =
     (case repo e (store w) of
        (r, s') \<Rightarrow> (r, w\<lparr>insert_calls := insert_calls w @ [e], store := s'\<rparr>))"

subsection \<open>The store-event use case\<close>

definition validateInput ::
  "'v StoreEventInput \<Rightarrow> ('v, 's) world \<Rightarrow> error option \<times> ('v, 's) world" where
  "validateInput inp w =
     (if in_EventName inp = [] \<or> in_Channel inp = [] \<or> in_UserID inp = []
      then (Some ErrInvalidEvent, w)
      else (case time_Now_Unix w of
              (now, w') \<Rightarrow>
                if now <s in_Timestamp inp then (Some ErrFutureTime, w') else (None, w')))"

definition buildDedupeKey :: "'v StoreEventInput \<Rightarrow> Time \<Rightarrow> string" where
  "buildDedupeKey inp t =
     Sprintf ''%s|%s|%s|%s|%d''
       [S (in_EventName inp), S (in_UserID inp), S (in_Channel inp), S (in_CampaignID inp),
        D (Time_Unix t)]"

definition StoreEvent_Execute ::
  "('v, 's) EventRepositoryPort \<Rightarrow> 'v StoreEventInput \<Rightarrow> ('v, 's) world
     \<Rightarrow> (bool \<times> error option) \<times> ('v, 's) world" where
  "StoreEvent_Execute repo inp w =
     (case validateInput inp w of
        (Some err, w1) \<Rightarrow> ((False, Some err), w1)
      | (None, w1) \<Rightarrow>
          (let eventTime = Time_UTC (time_Unix (in_Timestamp inp));
               inp1 = (if in_Tags inp = None then inp\<lparr>in_Tags := Some []\<rparr> else inp);
               inp2 = (if in_Metadata inp1 = None
                       then inp1\<lparr>in_Metadata := Some Map.empty\<rparr> else inp1);
               dedupeKey = buildDedupeKey inp2 eventTime;
               e = \<lparr>ev_EventName = in_EventName inp2,
                    ev_Channel = in_Channel inp2,
                    ev_CampaignID = in_CampaignID inp2,
                    ev_UserID = in_UserID inp2,
                    ev_EventTime = eventTime,
                    ev_Tags = in_Tags inp2,
                    ev_Metadata = in_Metadata inp2,
                    ev_DedupeKey = dedupeKey\<rparr>
           in (case repo_InsertEvent repo e w1 of
                 ((created, Some err), w2) \<Rightarrow> ((False, Some err), w2)
               | ((created, None), w2) \<Rightarrow> ((created, None), w2))))"

text \<open>
  The event that \<open>Execute\<close> builds from an input that passed validation, written
  as a function of the input.
\<close>

definition event_of_input :: "'v StoreEventInput \<Rightarrow> 'v Event" where
  "event_of_input inp =
     \<lparr>ev_EventName = in_EventName inp,
      ev_Channel = in_Channel inp,
      ev_CampaignID = in_CampaignID inp,
      ev_UserID = in_UserID inp,
      ev_EventTime = Time_UTC (time_Unix (in_Timestamp inp)),
      ev_Tags = Some (case in_Tags inp of None \<Rightarrow> [] | Some ts \<Rightarrow> ts),
      ev_Metadata = Some (case in_Metadata inp of None \<Rightarrow> Map.empty | Some m \<Rightarrow> m),
      ev_DedupeKey = buildDedupeKey inp (Time_UTC (time_Unix (in_Timestamp inp)))\<rparr>"

subsection \<open>Bulk ingestion\<close>

text \<open>
  The counters are Go \<open>int\<close>s that count elements of one slice, so they cannot wrap;
  they are integers here.
\<close>

record BulkCreateEventsResult =
  Created :: int
  Duplicates :: int

record 'v BulkCreateEventsInput =
  Events :: "'v StoreEventInput list"

text \<open>The first loop of \<open>BulkCreateEvents\<close>: validate every item, stop at the first error.\<close>

fun validate_loop ::
  "'v StoreEventInput list \<Rightarrow> ('v, 's) world \<Rightarrow> error option \<times> ('v, 's) world" where
  "validate_loop [] w = (None, w)"
| "validate_loop (ev # evs) w =
     (case validateInput ev w of
        (Some err, w') \<Rightarrow> (Some err, w')
      | (None, w') \<Rightarrow> validate_loop evs w')"

text \<open>The second loop: store item by item, count the outcomes, stop at the first error.\<close>

fun store_loop ::
  "('v, 's) EventRepositoryPort \<Rightarrow> 'v StoreEventInput list \<Rightarrow> BulkCreateEventsResult
     \<Rightarrow> ('v, 's) world \<Rightarrow> (BulkCreateEventsResult \<times> error option) \<times> ('v, 's) world" where
  "store_loop repo [] res w = ((res, None), w)"
| "store_loop repo (ev # evs) res w =
     (case StoreEvent_Execute repo ev w of
        ((ok, Some err), w') \<Rightarrow> ((res, Some err), w')
      | ((ok, None), w') \<Rightarrow>
          store_loop repo evs
            (if ok then res\<lparr>Created := Created res + 1\<rparr>
             else res\<lparr>Duplicates := Duplicates res + 1\<rparr>) w')"

definition BulkCreateEvents ::
  "('v, 's) EventRepositoryPort \<Rightarrow> 'v BulkCreateEventsInput \<Rightarrow> ('v, 's) world
     \<Rightarrow> (BulkCreateEventsResult \<times> error option) \<times> ('v, 's) world" where
  "BulkCreateEvents repo inp w =
     (let res = \<lparr>Created = 0, Duplicates = 0\<rparr>
      in (case validate_loop (Events inp) w of
            (Some err, w') \<Rightarrow> ((res, Some err), w')
          | (None, w') \<Rightarrow> store_loop repo (Events inp) res w'))"

text \<open>
  What a sequence of port calls does when nothing but the port is looked at: the events
  are offered in order until one call returns an error; the outcomes of the calls before
  it, the error if any, the number of calls made and the state they leave behind.
\<close>

fun port_run ::
  "('v, 's) EventRepositoryPort \<Rightarrow> 'v Event list \<Rightarrow> 's
     \<Rightarrow> (bool list \<times> error option \<times> nat) \<times> 's" where
  "port_run repo [] s = (([], None, 0), s)"
| "port_run repo (e # es) s =
     (case repo e s of
        ((ok, Some err), s') \<Rightarrow> (([], Some err, 1), s')
      | ((ok, None), s') \<Rightarrow>
          (case port_run repo es s' of
             ((oks, r, n), s'') \<Rightarrow> ((ok # oks, r, Suc n), s'')))"

subsection \<open>The events repository\<close>

text \<open>
  The arguments handed to the database driver, the result of a statement, and the
  database handle. \<open>ExecContext\<close> returns a result or an error, and so does
  \<open>RowsAffected\<close>. The state of the repository records every statement executed
  (\<open>exec_calls\<close>) next to the state of the connection. \<open>json.Marshal\<close> is a
  parameter \<open>marshal\<close>.
\<close>

datatype sql_arg =
    ArgNull
  | ArgString string
  | ArgInt int64
  | ArgTime Time
  | ArgStringArray "string list option"
  | ArgBytes string

datatype sql_Result = sql_Result (RowsAffected: "error + int64")

record 'd pg =
  exec_calls :: "(string \<times> sql_arg list) list"
  conn :: 'd

type_synonym 'd DB = "string \<Rightarrow> sql_arg list \<Rightarrow> 'd \<Rightarrow> (error + sql_Result) \<times> 'd"

definition db_ExecContext ::
  "'d DB \<Rightarrow> string \<Rightarrow> sql_arg list \<Rightarrow> 'd pg \<Rightarrow> (error + sql_Result) \<times> 'd pg" where
  "db_ExecContext db q args s =
     (case db q args (conn s) of
        (r, d') \<Rightarrow> (r, s\<lparr>exec_calls := exec_calls s @ [(q, args)], conn := d'\<rparr>))"

text \<open>The statement text, with its line breaks and indentation written as single spaces.\<close>

definition insertEventSQL :: string where
  "insertEventSQL =
     ''INSERT INTO events ( event_name, channel, campaign_id, user_id, event_time, tags, metadata, dedupe_key ) VALUES ( $1, $2, $3, $4, $5, $6, $7, $8 ) ON CONFLICT (dedupe_key) DO NOTHING;''"

definition pqStringArray :: "string list option \<Rightarrow> sql_arg" where
  "pqStringArray tags = ArgStringArray tags"

definition InsertEvent ::
  "((string \<rightharpoonup> 'v) option \<Rightarrow> error + string) \<Rightarrow> 'd DB
     \<Rightarrow> ('v, 'd pg) EventRepositoryPort" where
  "InsertEvent marshal db e s =
     (let campaignID = (if ev_CampaignID e = [] then ArgNull else ArgString (ev_CampaignID e))
      in (case marshal (ev_Metadata e) of
            Inl err \<Rightarrow> ((False, Some err), s)
          | Inr metadataJSON \<Rightarrow>
              (case db_ExecContext db insertEventSQL
                      [ArgString (ev_EventName e),
                       ArgString (ev_Channel e),
                       campaignID,
                       ArgString (ev_UserID e),
                       ArgTime (ev_EventTime e),
                       pqStringArray (ev_Tags e),
                       ArgBytes metadataJSON,
                       ArgString (ev_DedupeKey e)] s of
                 (Inl err, s') \<Rightarrow> ((False, Some err), s')
               | (Inr res, s') \<Rightarrow>
                   (case RowsAffected res of
                      Inl err \<Rightarrow> ((False, Some err), s')
                    | Inr rows \<Rightarrow> ((0 <s rows, None), s')))))"

text \<open>
  The argument list of the statement as a function of the event and of the encoded
  metadata, and what the database reports for the insert of an event: the fault of the
  encoder, of \<open>ExecContext\<close> or of \<open>RowsAffected\<close>, or the number of rows affected.
\<close>

definition insert_args :: "'v Event \<Rightarrow> string \<Rightarrow> sql_arg list" where
  "insert_args e metadataJSON =
     [ArgString (ev_EventName e),
      ArgString (ev_Channel e),
      (if ev_CampaignID e = [] then ArgNull else ArgString (ev_CampaignID e)),
      ArgString (ev_UserID e),
      ArgTime (ev_EventTime e),
      ArgStringArray (ev_Tags e),
      ArgBytes metadataJSON,
      ArgString (ev_DedupeKey e)]"

definition insert_report ::
  "((string \<rightharpoonup> 'v) option \<Rightarrow> error + string) \<Rightarrow> 'd DB \<Rightarrow> 'v Event \<Rightarrow> 'd pg
     \<Rightarrow> error + int64" where
  "insert_report marshal db e s =
     (case marshal (ev_Metadata e) of
        Inl err \<Rightarrow> Inl err
      | Inr metadataJSON \<Rightarrow>
          (case fst (db insertEventSQL (insert_args e metadataJSON) (conn s)) of
             Inl err \<Rightarrow> Inl err
           | Inr res \<Rightarrow> RowsAffected res))"

subsection \<open>The metrics use case\<close>

text \<open>
  The fields of \<open>GetMetricsInput\<close> carry the prefix \<open>gm_\<close>, those of
  \<open>MetricsFilter\<close> the prefix \<open>mf_\<close>, those of \<open>AggregatedMetrics\<close> the prefix
  \<open>am_\<close> and those of \<open>MetricsGroup\<close> the prefix \<open>mg_\<close>. The optional channel
  (a \<open>*string\<close>) is \<open>None\<close> when nil. A nil and an empty slice of groups are both
  the empty list.
\<close>

record GetMetricsInput =
  gm_EventName :: string
  gm_From :: int64
  gm_To :: int64
  gm_Channel :: "string option"
  gm_GroupBy :: string
  gm_Interval :: string

record MetricsFilter =
  mf_EventName :: string
  mf_From :: int64
  mf_To :: int64
  mf_Channel :: "string option"
  mf_GroupBy :: string
  mf_Interval :: string

record MetricsGroup =
  mg_Key :: string
  mg_TotalCount :: int64
  mg_UniqueUsers :: int64

record AggregatedMetrics =
  am_EventName :: string
  am_From :: int64
  am_To :: int64
  am_TotalCount :: int64
  am_UniqueUsers :: int64
  am_GroupBy :: string
  am_Groups :: "MetricsGroup list"

type_synonym 'r MetricsReaderPort =
  "MetricsFilter \<Rightarrow> 'r \<Rightarrow> (AggregatedMetrics option \<times> error option) \<times> 'r"

definition GetMetrics_Execute ::
  "'r MetricsReaderPort \<Rightarrow> GetMetricsInput \<Rightarrow> 'r
     \<Rightarrow> (AggregatedMetrics option \<times> error option) \<times> 'r" where
  "GetMetrics_Execute reader inp r =
     (if gm_EventName inp = [] then ((None, Some ErrInvalidMetricsQuery), r)
      else if gm_From inp \<le>s 0 \<or> gm_To inp \<le>s 0 \<or> gm_To inp <s gm_From inp
      then ((None, Some ErrInvalidTimeRange), r)
      else
        (case (if gm_GroupBy inp = [] then None
               else if gm_GroupBy inp = ''channel'' then None
               else if gm_GroupBy inp = ''time'' then
                 (if gm_Interval inp \<noteq> ''hour'' \<and> gm_Interval inp \<noteq> ''day''
                  then Some ErrInvalidInterval else None)
               else Some ErrInvalidGroupBy) of
           Some err \<Rightarrow> ((None, Some err), r)
         | None \<Rightarrow>
             (let filter = \<lparr>mf_EventName = gm_EventName inp,
                              mf_From = gm_From inp,
                              mf_To = gm_To inp,
                              mf_Channel = gm_Channel inp,
                              mf_GroupBy = gm_GroupBy inp,
                              mf_Interval = gm_Interval inp\<rparr>
              in (case reader filter r of
                    ((result, Some err), r') \<Rightarrow> ((None, Some err), r')
                  | ((result, None), r') \<Rightarrow> ((result, None), r')))))"

subsection \<open>The metrics repository\<close>

text \<open>
  A result set is a finite sequence of rows. For each row that \<open>Next\<close> announces,
  \<open>scans\<close> holds what \<open>Scan\<close> meets: an error of the driver, or the column values.
  \<open>rows_Err\<close> is what \<open>Err\<close> reports when the function asks for it. \<open>Scan\<close>
  succeeds when the row has one value of the destination's type for each destination;
  the conversions of \<open>database/sql\<close> between column types are not modelled. The
  layout \<open>time.RFC3339\<close> is a parameter \<open>rfc3339\<close>.
\<close>

datatype sql_val = VInt int64 | VString string | VTime Time | VNull

datatype RowScanner =
  RowScanner (scans: "(error + sql_val list) list") (rows_Err: "error option")

type_synonym QueryDB = "string \<Rightarrow> sql_arg list \<Rightarrow> error + RowScanner"

fun Scan_int64_int64 :: "error + sql_val list \<Rightarrow> error + (int64 \<times> int64)" where
  "Scan_int64_int64 (Inl err) = Inl err"
| "Scan_int64_int64 (Inr [VInt tot, VInt uniq]) = Inr (tot, uniq)"
| "Scan_int64_int64 (Inr vs) = Inl (Fault ''sql: Scan error'')"

fun Scan_string_int64_int64 ::
  "error + sql_val list \<Rightarrow> error + (string \<times> int64 \<times> int64)" where
  "Scan_string_int64_int64 (Inl err) = Inl err"
| "Scan_string_int64_int64 (Inr [VString ch, VInt tot, VInt uniq]) = Inr (ch, tot, uniq)"
| "Scan_string_int64_int64 (Inr vs) = Inl (Fault ''sql: Scan error'')"

fun Scan_Time_int64_int64 ::
  "error + sql_val list \<Rightarrow> error + (Time \<times> int64 \<times> int64)" where
  "Scan_Time_int64_int64 (Inl err) = Inl err"
| "Scan_Time_int64_int64 (Inr [VTime ts, VInt tot, VInt uniq]) = Inr (ts, tot, uniq)"
| "Scan_Time_int64_int64 (Inr vs) = Inl (Fault ''sql: Scan error'')"

text \<open>The texts of the three queries, with line breaks written as single spaces.\<close>

definition queryNoGroup_sql :: "string \<Rightarrow> string" where
  "queryNoGroup_sql wh =
     ''SELECT COUNT(*) AS total_count, COUNT(DISTINCT user_id) AS unique_users FROM events WHERE ''
     @ wh"

definition queryGroupByChannel_sql :: "string \<Rightarrow> string" where
  "queryGroupByChannel_sql wh =
     ''SELECT channel, COUNT(*) AS total_count, COUNT(DISTINCT user_id) AS unique_users FROM events WHERE ''
     @ wh @ '' GROUP BY channel ORDER BY channel''"

definition queryGroupByTime_sql :: "string \<Rightarrow> string \<Rightarrow> string" where
  "queryGroupByTime_sql interval wh =
     Sprintf (''SELECT date_trunc('' @ [CHR 0x27] @ ''%s'' @ [CHR 0x27] @
              '', event_time) AS bucket, COUNT(*) AS total_count, COUNT(DISTINCT user_id) AS unique_users FROM events WHERE %s GROUP BY bucket ORDER BY bucket'')
       [S interval, S wh]"

definition queryNoGroup ::
  "QueryDB \<Rightarrow> string \<Rightarrow> sql_arg list \<Rightarrow> AggregatedMetrics
     \<Rightarrow> AggregatedMetrics option \<times> error option" where
  "queryNoGroup db wh args res =
     (case db (queryNoGroup_sql wh) args of
        Inl err \<Rightarrow> (None, Some err)
      | Inr rows \<Rightarrow>
          (case (case scans rows of
                   [] \<Rightarrow> Inr res
                 | sc # rest \<Rightarrow>
                     (case Scan_int64_int64 sc of
                        Inl err \<Rightarrow> Inl err
                      | Inr (tot, uniq) \<Rightarrow>
                          Inr (res\<lparr>am_TotalCount := tot, am_UniqueUsers := uniq\<rparr>))) of
             Inl err \<Rightarrow> (None, Some err)
           | Inr res' \<Rightarrow>
               (case rows_Err rows of
                  Some err \<Rightarrow> (None, Some err)
                | None \<Rightarrow> (Some res', None))))"

text \<open>
  The row loops of \<open>queryGroupByChannel\<close> and \<open>queryGroupByTime\<close>: the groups
  appended and the two running sums so far are the accumulators.
\<close>

fun channel_rows_loop ::
  "(error + sql_val list) list \<Rightarrow> MetricsGroup list \<Rightarrow> int64 \<Rightarrow> int64
     \<Rightarrow> error + (MetricsGroup list \<times> int64 \<times> int64)" where
  "channel_rows_loop [] groups totalSum uniqueSum = Inr (groups, totalSum, uniqueSum)"
| "channel_rows_loop (sc # rest) groups totalSum uniqueSum =
     (case Scan_string_int64_int64 sc of
        Inl err \<Rightarrow> Inl err
      | Inr (ch, tot, uniq) \<Rightarrow>
          channel_rows_loop rest
            (groups @ [\<lparr>mg_Key = ch, mg_TotalCount = tot, mg_UniqueUsers = uniq\<rparr>])
            (totalSum + tot) (uniqueSum + uniq))"

definition queryGroupByChannel ::
  "QueryDB \<Rightarrow> string \<Rightarrow> sql_arg list \<Rightarrow> AggregatedMetrics
     \<Rightarrow> AggregatedMetrics option \<times> error option" where
  "queryGroupByChannel db wh args res =
     (case db (queryGroupByChannel_sql wh) args of
        Inl err \<Rightarrow> (None, Some err)
      | Inr rows \<Rightarrow>
          (case channel_rows_loop (scans rows) [] 0 0 of
             Inl err \<Rightarrow> (None, Some err)
           | Inr (groups, totalSum, uniqueSum) \<Rightarrow>
               (case rows_Err rows of
                  Some err \<Rightarrow> (None, Some err)
                | None \<Rightarrow>
                    (Some (res\<lparr>am_Groups := groups, am_TotalCount := totalSum,
                               am_UniqueUsers := uniqueSum\<rparr>), None))))"

fun time_rows_loop ::
  "(Time \<Rightarrow> string) \<Rightarrow> (error + sql_val list) list \<Rightarrow> MetricsGroup list \<Rightarrow> int64 \<Rightarrow> int64
     \<Rightarrow> error + (MetricsGroup list \<times> int64 \<times> int64)" where
  "time_rows_loop rfc3339 [] groups totalSum uniqueSum = Inr (groups, totalSum, uniqueSum)"
| "time_rows_loop rfc3339 (sc # rest) groups totalSum uniqueSum =
     (case Scan_Time_int64_int64 sc of
        Inl err \<Rightarrow> Inl err
      | Inr (ts, tot, uniq) \<Rightarrow>
          time_rows_loop rfc3339 rest
            (groups @ [\<lparr>mg_Key = rfc3339 (Time_UTC ts), mg_TotalCount = tot,
                        mg_UniqueUsers = uniq\<rparr>])
            (totalSum + tot) (uniqueSum + uniq))"

definition queryGroupByTime ::
  "QueryDB \<Rightarrow> (Time \<Rightarrow> string) \<Rightarrow> string \<Rightarrow> sql_arg list \<Rightarrow> AggregatedMetrics \<Rightarrow> string
     \<Rightarrow> AggregatedMetrics option \<times> error option" where
  "queryGroupByTime db rfc3339 wh args res interval =
     (case db (queryGroupByTime_sql interval wh) args of
        Inl err \<Rightarrow> (None, Some err)
      | Inr rows \<Rightarrow>
          (case time_rows_loop rfc3339 (scans rows) [] 0 0 of
             Inl err \<Rightarrow> (None, Some err)
           | Inr (groups, totalSum, uniqueSum) \<Rightarrow>
               (case rows_Err rows of
                  Some err \<Rightarrow> (None, Some err)
                | None \<Rightarrow>
                    (Some (res\<lparr>am_Groups := groups, am_TotalCount := totalSum,
                               am_UniqueUsers := uniqueSum\<rparr>), None))))"

definition QueryMetrics ::
  "QueryDB \<Rightarrow> (Time \<Rightarrow> string) \<Rightarrow> MetricsFilter
     \<Rightarrow> AggregatedMetrics option \<times> error option" where
  "QueryMetrics db rfc3339 f =
     (let fromTime = Time_UTC (time_Unix (mf_From f));
          toTime = Time_UTC (time_Unix (mf_To f));
          wh0 = ''event_name = $1 AND event_time BETWEEN $2 AND $3'';
          args0 = [ArgString (mf_EventName f), ArgTime fromTime, ArgTime toTime];
          argIndex = 4;
          wh = (case mf_Channel f of
                  Some ch \<Rightarrow> wh0 @ Sprintf '' AND channel = $%d'' [D argIndex]
                | None \<Rightarrow> wh0);
          args = (case mf_Channel f of Some ch \<Rightarrow> args0 @ [ArgString ch] | None \<Rightarrow> args0);
          result = \<lparr>am_EventName = mf_EventName f,
                      am_From = mf_From f,
                      am_To = mf_To f,
                      am_TotalCount = 0,
                      am_UniqueUsers = 0,
                      am_GroupBy = mf_GroupBy f,
                      am_Groups = []\<rparr>
      in if mf_GroupBy f = [] then queryNoGroup db wh args result
         else if mf_GroupBy f = ''channel'' then queryGroupByChannel db wh args result
         else if mf_GroupBy f = ''time'' then
           queryGroupByTime db rfc3339 wh args result (mf_Interval f)
         else (None, Some (Fault (Sprintf ''unsupported group_by: %s'' [S (mf_GroupBy f)]))))"

text \<open>
  A row of the channel query and of the time query as the driver delivers it, and the
  group each of them becomes.
\<close>

definition channel_row :: "string \<times> int64 \<times> int64 \<Rightarrow> error + sql_val list" where
  "channel_row r = (case r of (ch, tot, uniq) \<Rightarrow> Inr [VString ch, VInt tot, VInt uniq])"

definition channel_group :: "string \<times> int64 \<times> int64 \<Rightarrow> MetricsGroup" where
  "channel_group r =
     (case r of (ch, tot, uniq) \<Rightarrow>
        \<lparr>mg_Key = ch, mg_TotalCount = tot, mg_UniqueUsers = uniq\<rparr>)"

definition time_row :: "Time \<times> int64 \<times> int64 \<Rightarrow> error + sql_val list" where
  "time_row r = (case r of (ts, tot, uniq) \<Rightarrow> Inr [VTime ts, VInt tot, VInt uniq])"

definition time_group :: "(Time \<Rightarrow> string) \<Rightarrow> Time \<times> int64 \<times> int64 \<Rightarrow> MetricsGroup" where
  "time_group rfc3339 r =
     (case r of (ts, tot, uniq) \<Rightarrow>
        \<lparr>mg_Key = rfc3339 (Time_UTC ts), mg_TotalCount = tot, mg_UniqueUsers = uniq\<rparr>)"

subsection \<open>Test doubles and sample data\<close>

text \<open>
  A repository double in the manner of the one the bulk tests use: it answers from a
  script of results (\<open>Created\<close> once the script is used up) and keeps the dedupe keys
  of the events it reported as created.
\<close>

definition scripted_repo ::
  "('v, (bool \<times> error option) list \<times> string list) EventRepositoryPort" where
  "scripted_repo e st =
     (case fst st of
        [] \<Rightarrow> ((True, None), ([], snd st @ [ev_DedupeKey e]))
      | (ok, None) # rs \<Rightarrow>
          ((ok, None), (rs, if ok then snd st @ [ev_DedupeKey e] else snd st))
      | (ok, Some err) # rs \<Rightarrow> ((False, Some err), (rs, snd st)))"

definition sample_input :: "unit StoreEventInput" where
  "sample_input =
     \<lparr>in_EventName = ''product_view'', in_Channel = ''web'', in_CampaignID = ''cmp_1'',
      in_UserID = ''user_1'', in_Timestamp = 1700000000, in_Tags = None,
      in_Metadata = None\<rparr>"

definition sample_world ::
  "'s \<Rightarrow> (unit, 's) world" where
  "sample_world s =
     \<lparr>now_readings = (\<lambda>k. 1700000060), now_count = 0, insert_calls = [], store = s\<rparr>"

definition scripted_world ::
  "(bool \<times> error option) list
     \<Rightarrow> (unit, (bool \<times> error option) list \<times> string list) world" where
  "scripted_world script = sample_world (script, [])"

definition sample_batch_invalid :: "unit BulkCreateEventsInput" where
  "sample_batch_invalid =
     \<lparr>Events = [sample_input,
                sample_input\<lparr>in_EventName := [], in_UserID := ''user_2''\<rparr>,
                sample_input\<lparr>in_EventName := ''add_to_cart'', in_UserID := ''user_3''\<rparr>]\<rparr>"

definition sample_batch :: "unit BulkCreateEventsInput" where
  "sample_batch =
     \<lparr>Events = [sample_input,
                sample_input,
                sample_input\<lparr>in_EventName := ''add_to_cart'', in_UserID := ''user_2''\<rparr>]\<rparr>"

text \<open>
  Doubles of the database handle and of the JSON encoder in the manner of the
  repository tests: every statement succeeds and reports a fixed number of rows.
\<close>

definition fake_db :: "int64 \<Rightarrow> unit DB" where
  "fake_db rows q args d = (Inr (sql_Result (Inr rows)), d)"

definition fake_marshal :: "(string \<rightharpoonup> unit) option \<Rightarrow> error + string" where
  "fake_marshal m = Inr ''{}''"

definition pg_world :: "(unit, unit pg) world" where
  "pg_world = sample_world \<lparr>exec_calls = [], conn = ()\<rparr>"

text \<open>
  A metrics reader that answers every filter with an empty summary, a query, a filter,
  and databases that answer every query with the same rows.
\<close>

definition fake_reader :: "unit MetricsReaderPort" where
  "fake_reader f r =
     ((Some \<lparr>am_EventName = mf_EventName f, am_From = mf_From f, am_To = mf_To f,
              am_TotalCount = 0, am_UniqueUsers = 0, am_GroupBy = mf_GroupBy f,
              am_Groups = []\<rparr>, None), r)"

definition sample_query :: GetMetricsInput where
  "sample_query =
     \<lparr>gm_EventName = ''product_view'', gm_From = 100, gm_To = 100, gm_Channel = None,
      gm_GroupBy = [], gm_Interval = []\<rparr>"

definition sample_filter :: MetricsFilter where
  "sample_filter =
     \<lparr>mf_EventName = ''product_view'', mf_From = 100, mf_To = 200, mf_Channel = None,
      mf_GroupBy = ''channel'', mf_Interval = []\<rparr>"

definition rows_db :: "(error + sql_val list) list \<Rightarrow> QueryDB" where
  "rows_db scs q args = Inr (RowScanner scs None)"

definition fake_rfc3339 :: "Time \<Rightarrow> string" where
  "fake_rfc3339 t = FormatInt (Time_Unix t)"

text \<open>
  A run in which the wall clock steps back by one second after its third reading, and
  a batch of two items stamped with the second that the first three readings show.
\<close>

definition stepping_back_world ::
  "(unit, (bool \<times> error option) list \<times> string list) world" where
  "stepping_back_world =
     \<lparr>now_readings = (\<lambda>k. if k < 3 then 100 else 99), now_count = 0, insert_calls = [],
      store = ([], [])\<rparr>"

definition stepping_back_batch :: "unit BulkCreateEventsInput" where
  "stepping_back_batch =
     \<lparr>Events = [sample_input\<lparr>in_Timestamp := 100\<rparr>,
                sample_input\<lparr>in_UserID := ''user_2'', in_Timestamp := 100\<rparr>]\<rparr>"

section \<open>Properties\<close>

subsection \<open>Decimal rendering\<close>

lemma digit_cases:
  "d < 10 \<Longrightarrow> d = 0 \<or> d = 1 \<or> d = 2 \<or> d = 3 \<or> d = 4 \<or> d = 5 \<or> d = 6 \<or> d = 7 \<or> d = 8 \<or> d = (9::nat)"
  by arith

lemma digit_val_digits10: "d < 10 \<Longrightarrow> digit_val (digits10 ! d) = d"
  using digit_cases [of d] by (auto simp: digit_val_def digits10_def)

lemma digits10_not_minus: "d < 10 \<Longrightarrow> digits10 ! d \<noteq> CHR ''-''"
  using digit_cases [of d] by (auto simp: digits10_def)

lemma dec_nat_snoc: "dec_nat (ds @ [c]) = 10 * dec_nat ds + digit_val c"
  by (simp add: dec_nat_def)

lemma dec_nat_nat_dec: "dec_nat (nat_dec n) = n"
proof (induction n rule: nat_dec.induct)
  case (1 n)
  show ?case
  proof (cases "n < 10")
    case True
    then show ?thesis
      by (simp add: nat_dec.simps [of n] dec_nat_def digit_val_digits10)
  next
    case False
    then have "dec_nat (nat_dec n) =
        10 * dec_nat (nat_dec (n div 10)) + digit_val (digits10 ! (n mod 10))"
      by (simp add: nat_dec.simps [of n] dec_nat_snoc)
    also have "\<dots> = 10 * (n div 10) + n mod 10"
      using "1.IH" False by (simp add: digit_val_digits10)
    finally show ?thesis by simp
  qed
qed

lemma nat_dec_hd: "\<exists>c cs. nat_dec n = c # cs \<and> c \<noteq> CHR ''-''"
proof (induction n rule: nat_dec.induct)
  case (1 n)
  show ?case
  proof (cases "n < 10")
    case True
    then show ?thesis
      by (simp add: nat_dec.simps [of n] digits10_not_minus)
  next
    case False
    with "1.IH" obtain c cs where "nat_dec (n div 10) = c # cs" "c \<noteq> CHR ''-''"
      by blast
    with False show ?thesis
      by (simp add: nat_dec.simps [of n])
  qed
qed

lemma dec_int_FormatInt: "dec_int (FormatInt i) = sint i"
proof (cases "sint i < 0")
  case True
  then show ?thesis
    by (simp add: FormatInt_def dec_int_def dec_nat_nat_dec)
next
  case False
  obtain c cs where "nat_dec (nat (sint i)) = c # cs" "c \<noteq> CHR ''-''"
    using nat_dec_hd by blast
  with False show ?thesis
    using dec_nat_nat_dec [of "nat (sint i)"] by (simp add: FormatInt_def dec_int_def)
qed

lemma FormatInt_inj: "FormatInt i = FormatInt j \<Longrightarrow> i = j"
proof -
  assume "FormatInt i = FormatInt j"
  then have "dec_int (FormatInt i) = dec_int (FormatInt j)"
    by simp
  then have "sint i = sint j"
    by (simp only: dec_int_FormatInt)
  then show "i = j"
    by (rule signed_word_eqI)
qed

lemma FormatInt_sample: "FormatInt 1700000000 = ''1700000000''"
  by (simp add: FormatInt_def nat_dec.simps digits10_def)

subsection \<open>The dedupe key\<close>

lemma buildDedupeKey_eq:
  "buildDedupeKey inp t =
     in_EventName inp @ ''|'' @ in_UserID inp @ ''|'' @ in_Channel inp @ ''|'' @
     in_CampaignID inp @ ''|'' @ FormatInt (Time_Unix t)"
  by (simp add: buildDedupeKey_def)

lemma validateInput_None_iff:
  "fst (validateInput inp w) = None \<longleftrightarrow>
     in_EventName inp \<noteq> [] \<and> in_Channel inp \<noteq> [] \<and> in_UserID inp \<noteq> []
     \<and> \<not> now_readings w (now_count w) <s in_Timestamp inp"
  by (simp add: validateInput_def time_Now_Unix_def)

lemma validateInput_None:
  "fst (validateInput inp w) = None \<Longrightarrow>
     validateInput inp w = (None, w\<lparr>now_count := Suc (now_count w)\<rparr>)"
  by (auto simp: validateInput_def time_Now_Unix_def split: if_splits)

lemma validateInput_Some:
  "validateInput inp w = (Some err, w') \<Longrightarrow>
     (err = ErrInvalidEvent \<or> err = ErrFutureTime)
     \<and> insert_calls w' = insert_calls w \<and> store w' = store w"
  by (auto simp: validateInput_def time_Now_Unix_def split: if_splits)

lemma sample_input_valid: "fst (validateInput sample_input (sample_world s)) = None"
  by (simp add: validateInput_None_iff sample_input_def sample_world_def)

lemma Execute_valid:
  assumes "fst (validateInput inp w) = None"
  shows "StoreEvent_Execute repo inp w =
     (case repo (event_of_input inp) (store w) of
        ((created, err), s') \<Rightarrow>
          ((if err = None then created else False, err),
           w\<lparr>now_count := Suc (now_count w),
             insert_calls := insert_calls w @ [event_of_input inp],
             store := s'\<rparr>))"
  using validateInput_None [OF assms]
  by (auto simp: StoreEvent_Execute_def Let_def repo_InsertEvent_def event_of_input_def
                 buildDedupeKey_def
           split: prod.splits option.splits)

text \<open>
  Claim C1. For an input that passes validation, the event handed to the repository
  carries as dedupe key the event name, the user, the channel, the campaign and the
  event time, in this order and joined by \<open>|\<close>. The event time is the input's
  timestamp at zero nanoseconds, and its segment of the key is the decimal numeral of
  that Unix second.
\<close>

theorem Execute_dedupe_key_format:
  assumes "fst (validateInput inp w) = None"
  shows "\<exists>e. insert_calls (snd (StoreEvent_Execute repo inp w)) = insert_calls w @ [e]
           \<and> ev_DedupeKey e =
               join ''|'' [in_EventName inp, in_UserID inp, in_Channel inp, in_CampaignID inp,
                         FormatInt (Time_Unix (ev_EventTime e))]
           \<and> Time_Unix (ev_EventTime e) = in_Timestamp inp
           \<and> nanos (ev_EventTime e) = 0
           \<and> dec_int (FormatInt (Time_Unix (ev_EventTime e))) = sint (in_Timestamp inp)"
proof -
  let ?e = "event_of_input inp"
  have calls: "insert_calls (snd (StoreEvent_Execute repo inp w)) = insert_calls w @ [?e]"
    by (simp add: Execute_valid [OF assms] split: prod.splits)
  have t: "Time_Unix (ev_EventTime ?e) = in_Timestamp inp" "nanos (ev_EventTime ?e) = 0"
    by (simp_all add: event_of_input_def Time_Unix_def Time_UTC_def time_Unix_def)
  have key: "ev_DedupeKey ?e =
      join ''|'' [in_EventName inp, in_UserID inp, in_Channel inp, in_CampaignID inp,
                FormatInt (Time_Unix (ev_EventTime ?e))]"
    by (simp add: t)
       (simp add: event_of_input_def buildDedupeKey_eq Time_Unix_def Time_UTC_def
                  time_Unix_def)
  show ?thesis
    using calls t key dec_int_FormatInt [of "in_Timestamp inp"]
    by (intro exI [of _ ?e]) simp
qed

theorem Execute_dedupe_key_format_witness:
  "fst (validateInput sample_input (scripted_world [])) = None
   \<and> (\<exists>e. insert_calls (snd (StoreEvent_Execute scripted_repo sample_input
                                (scripted_world []))) = [e]
          \<and> ev_DedupeKey e = ''product_view|user_1|web|cmp_1|1700000000'')"
proof -
  have h: "fst (validateInput sample_input (scripted_world [])) = None"
    by (simp add: scripted_world_def sample_input_valid)
  from Execute_dedupe_key_format [OF h, of scripted_repo] obtain e where
    c: "insert_calls (snd (StoreEvent_Execute scripted_repo sample_input
                             (scripted_world []))) = insert_calls (scripted_world []) @ [e]"
    and k: "ev_DedupeKey e =
              join ''|'' [in_EventName sample_input, in_UserID sample_input,
                        in_Channel sample_input, in_CampaignID sample_input,
                        FormatInt (Time_Unix (ev_EventTime e))]"
    and t: "Time_Unix (ev_EventTime e) = in_Timestamp sample_input"
    by blast
  have "ev_DedupeKey e = ''product_view|user_1|web|cmp_1|1700000000''"
    using k t by (simp add: sample_input_def FormatInt_sample)
  moreover have "insert_calls (snd (StoreEvent_Execute scripted_repo sample_input
                                      (scripted_world []))) = [e]"
    using c by (simp add: scripted_world_def sample_world_def)
  ultimately show ?thesis
    using h by blast
qed

text \<open>
  Claim C2. The key is a function of the five coordinates alone: inputs that agree on
  event name, user, channel, campaign and Unix second get the same key, whatever their
  tags and metadata; and two inputs that agree on four of the coordinates and differ in
  the fifth get different keys. An empty campaign against a non-empty one is one
  instance of the fourth case.
\<close>

theorem buildDedupeKey_deterministic_separating:
  "(in_EventName a = in_EventName b \<and> in_UserID a = in_UserID b \<and> in_Channel a = in_Channel b
      \<and> in_CampaignID a = in_CampaignID b \<and> Time_Unix t = Time_Unix u
      \<longrightarrow> buildDedupeKey a t = buildDedupeKey b u)
   \<and> ((in_EventName a \<noteq> in_EventName b \<and> in_UserID a = in_UserID b
          \<and> in_Channel a = in_Channel b \<and> in_CampaignID a = in_CampaignID b
          \<and> Time_Unix t = Time_Unix u)
      \<or> (in_EventName a = in_EventName b \<and> in_UserID a \<noteq> in_UserID b
          \<and> in_Channel a = in_Channel b \<and> in_CampaignID a = in_CampaignID b
          \<and> Time_Unix t = Time_Unix u)
      \<or> (in_EventName a = in_EventName b \<and> in_UserID a = in_UserID b
          \<and> in_Channel a \<noteq> in_Channel b \<and> in_CampaignID a = in_CampaignID b
          \<and> Time_Unix t = Time_Unix u)
      \<or> (in_EventName a = in_EventName b \<and> in_UserID a = in_UserID b
          \<and> in_Channel a = in_Channel b \<and> in_CampaignID a \<noteq> in_CampaignID b
          \<and> Time_Unix t = Time_Unix u)
      \<or> (in_EventName a = in_EventName b \<and> in_UserID a = in_UserID b
          \<and> in_Channel a = in_Channel b \<and> in_CampaignID a = in_CampaignID b
          \<and> Time_Unix t \<noteq> Time_Unix u)
      \<longrightarrow> buildDedupeKey a t \<noteq> buildDedupeKey b u)"
  by (auto simp: buildDedupeKey_eq dest: FormatInt_inj)

theorem buildDedupeKey_deterministic_separating_witness:
  "buildDedupeKey sample_input (time_Unix 1700000000)
     = buildDedupeKey (sample_input\<lparr>in_Tags := Some [''a'']\<rparr>) (Time_UTC (time_Unix 1700000000))
   \<and> buildDedupeKey sample_input (time_Unix 1700000000)
     \<noteq> buildDedupeKey (sample_input\<lparr>in_CampaignID := []\<rparr>) (time_Unix 1700000000)
   \<and> buildDedupeKey sample_input (time_Unix 1700000000)
     \<noteq> buildDedupeKey sample_input (time_Unix 1700000001)"
  using buildDedupeKey_deterministic_separating
          [of sample_input "sample_input\<lparr>in_Tags := Some [''a'']\<rparr>"
              "time_Unix 1700000000" "Time_UTC (time_Unix 1700000000)"]
        buildDedupeKey_deterministic_separating
          [of sample_input "sample_input\<lparr>in_CampaignID := []\<rparr>"
              "time_Unix 1700000000" "time_Unix 1700000000"]
        buildDedupeKey_deterministic_separating
          [of sample_input sample_input "time_Unix 1700000000" "time_Unix 1700000001"]
  by (simp add: sample_input_def Time_Unix_def Time_UTC_def time_Unix_def)

subsection \<open>Validation of an ingestion input\<close>

text \<open>
  Claim C5. Validation reports \<open>ErrInvalidEvent\<close> (a missing field) when the event
  name, the channel or the user is empty, without reading the clock and whatever the
  timestamp is; when the three fields are non-empty it reports \<open>ErrFutureTime\<close> if the
  timestamp is later than the clock's second and passes otherwise.
\<close>

theorem validateInput_precedence:
  "(in_EventName inp = [] \<or> in_Channel inp = [] \<or> in_UserID inp = []
      \<longrightarrow> validateInput inp w = (Some ErrInvalidEvent, w))
   \<and> (in_EventName inp \<noteq> [] \<and> in_Channel inp \<noteq> [] \<and> in_UserID inp \<noteq> []
        \<and> now_readings w (now_count w) <s in_Timestamp inp
      \<longrightarrow> fst (validateInput inp w) = Some ErrFutureTime)
   \<and> (in_EventName inp \<noteq> [] \<and> in_Channel inp \<noteq> [] \<and> in_UserID inp \<noteq> []
        \<and> in_Timestamp inp \<le>s now_readings w (now_count w)
      \<longrightarrow> fst (validateInput inp w) = None)"
  by (auto simp: validateInput_def time_Now_Unix_def word_sless_alt word_sle_eq)

theorem validateInput_precedence_witness:
  "validateInput (sample_input\<lparr>in_EventName := [], in_Timestamp := 1800000000\<rparr>)
       (scripted_world [])
     = (Some ErrInvalidEvent, scripted_world [])
   \<and> fst (validateInput (sample_input\<lparr>in_Timestamp := 1800000000\<rparr>) (scripted_world []))
     = Some ErrFutureTime
   \<and> fst (validateInput (sample_input\<lparr>in_Timestamp := 1700000060\<rparr>) (scripted_world []))
     = None"
  using validateInput_precedence
          [of "sample_input\<lparr>in_EventName := [], in_Timestamp := 1800000000\<rparr>"
              "scripted_world []"]
        validateInput_precedence
          [of "sample_input\<lparr>in_Timestamp := 1800000000\<rparr>" "scripted_world []"]
        validateInput_precedence
          [of "sample_input\<lparr>in_Timestamp := 1700000060\<rparr>" "scripted_world []"]
  by (simp add: sample_input_def scripted_world_def sample_world_def)

subsection \<open>Tags and metadata of the stored event\<close>

text \<open>
  Claim C10. For an input that passes validation, the event handed to the repository
  has the input's tags and metadata when these are not nil, and the empty sequence and
  the empty map in place of nil ones; so neither is nil.
\<close>

theorem Execute_tags_metadata_not_nil:
  assumes "fst (validateInput inp w) = None"
  shows "\<exists>e. insert_calls (snd (StoreEvent_Execute repo inp w)) = insert_calls w @ [e]
           \<and> ev_Tags e = (case in_Tags inp of None \<Rightarrow> Some [] | Some ts \<Rightarrow> Some ts)
           \<and> ev_Metadata e =
               (case in_Metadata inp of None \<Rightarrow> Some Map.empty | Some m \<Rightarrow> Some m)
           \<and> ev_Tags e \<noteq> None \<and> ev_Metadata e \<noteq> None"
proof -
  let ?e = "event_of_input inp"
  have "insert_calls (snd (StoreEvent_Execute repo inp w)) = insert_calls w @ [?e]"
    by (simp add: Execute_valid [OF assms] split: prod.splits)
  moreover have "ev_Tags ?e = (case in_Tags inp of None \<Rightarrow> Some [] | Some ts \<Rightarrow> Some ts)"
    by (simp add: event_of_input_def split: option.splits)
  moreover have "ev_Metadata ?e =
      (case in_Metadata inp of None \<Rightarrow> Some Map.empty | Some m \<Rightarrow> Some m)"
    by (simp add: event_of_input_def split: option.splits)
  moreover have "ev_Tags ?e \<noteq> None" "ev_Metadata ?e \<noteq> None"
    by (simp_all add: event_of_input_def)
  ultimately show ?thesis
    by blast
qed

theorem Execute_tags_metadata_not_nil_witness:
  "fst (validateInput sample_input (scripted_world [])) = None
   \<and> (\<exists>e. insert_calls (snd (StoreEvent_Execute scripted_repo sample_input
                                (scripted_world []))) = [e]
          \<and> ev_Tags e = Some [] \<and> ev_Metadata e = Some Map.empty)
   \<and> fst (validateInput (sample_input\<lparr>in_Tags := Some [''a'', ''b'']\<rparr>) (scripted_world []))
       = None
   \<and> (\<exists>e. insert_calls (snd (StoreEvent_Execute scripted_repo
                                (sample_input\<lparr>in_Tags := Some [''a'', ''b'']\<rparr>)
                                (scripted_world []))) = [e]
          \<and> ev_Tags e = Some [''a'', ''b''])"
proof -
  have h1: "fst (validateInput sample_input (scripted_world [])) = None"
    by (simp add: scripted_world_def sample_input_valid)
  have h2: "fst (validateInput (sample_input\<lparr>in_Tags := Some [''a'', ''b'']\<rparr>)
                  (scripted_world [])) = None"
    by (simp add: validateInput_None_iff sample_input_def scripted_world_def sample_world_def)
  have e: "insert_calls (scripted_world []) = []"
    by (simp add: scripted_world_def sample_world_def)
  from Execute_tags_metadata_not_nil [OF h1, of scripted_repo]
  have c1: "\<exists>e. insert_calls (snd (StoreEvent_Execute scripted_repo sample_input
                                (scripted_world []))) = [e]
          \<and> ev_Tags e = Some [] \<and> ev_Metadata e = Some Map.empty"
    by (simp add: e sample_input_def, blast)
  from Execute_tags_metadata_not_nil [OF h2, of scripted_repo]
  have c2: "\<exists>e. insert_calls (snd (StoreEvent_Execute scripted_repo
                                (sample_input\<lparr>in_Tags := Some [''a'', ''b'']\<rparr>)
                                (scripted_world []))) = [e]
          \<and> ev_Tags e = Some [''a'', ''b'']"
    by (simp add: e) blast
  from h1 c1 h2 c2 show ?thesis
    by blast
qed

subsection \<open>The validation pass of bulk ingestion\<close>

lemma validate_loop_Some:
  "validate_loop evs w = (Some err, w') \<Longrightarrow>
     (err = ErrInvalidEvent \<or> err = ErrFutureTime)
     \<and> insert_calls w' = insert_calls w \<and> store w' = store w"
proof (induction evs arbitrary: w)
  case Nil
  then show ?case by simp
next
  case (Cons ev evs)
  show ?case
  proof (cases "fst (validateInput ev w)")
    case None
    from validateInput_None [OF None] Cons.prems
    have "validate_loop evs (w\<lparr>now_count := Suc (now_count w)\<rparr>) = (Some err, w')"
      by simp
    from Cons.IH [OF this] show ?thesis by simp
  next
    case (Some e)
    then obtain w1 where v: "validateInput ev w = (Some e, w1)"
      by (metis prod.collapse)
    with Cons.prems have "err = e" "w' = w1" by simp_all
    with validateInput_Some [OF v] show ?thesis by simp
  qed
qed

lemma validate_loop_None:
  "fst (validate_loop evs w) = None \<Longrightarrow>
     validate_loop evs w = (None, w\<lparr>now_count := now_count w + length evs\<rparr>)
     \<and> (\<forall>i<length evs. fst (validateInput (evs ! i) (w\<lparr>now_count := now_count w + i\<rparr>)) = None)"
proof (induction evs arbitrary: w)
  case Nil
  then show ?case by simp
next
  case (Cons ev evs)
  have v: "fst (validateInput ev w) = None"
    using Cons.prems by (cases "validateInput ev w") (auto split: option.splits)
  let ?w = "w\<lparr>now_count := Suc (now_count w)\<rparr>"
  have step: "validate_loop (ev # evs) w = validate_loop evs ?w"
    using validateInput_None [OF v] by simp
  with Cons.prems have "fst (validate_loop evs ?w) = None" by simp
  from Cons.IH [OF this]
  have ih1: "validate_loop evs ?w = (None, ?w\<lparr>now_count := now_count ?w + length evs\<rparr>)"
    and ih2: "\<forall>i<length evs. fst (validateInput (evs ! i) (?w\<lparr>now_count := now_count ?w + i\<rparr>)) = None"
    by simp_all
  have "\<forall>i<length (ev # evs). fst (validateInput ((ev # evs) ! i) (w\<lparr>now_count := now_count w + i\<rparr>)) = None"
  proof (intro allI impI)
    fix i assume "i < length (ev # evs)"
    then show "fst (validateInput ((ev # evs) ! i) (w\<lparr>now_count := now_count w + i\<rparr>)) = None"
      using v ih2 by (cases i) auto
  qed
  with step ih1 show ?case by simp
qed

lemma validate_loop_rejects:
  assumes "i < length evs"
      and "fst (validateInput (evs ! i) (w\<lparr>now_count := now_count w + i\<rparr>)) \<noteq> None"
  shows "\<exists>err. fst (validate_loop evs w) = Some err
           \<and> ((\<forall>j<i. fst (validateInput (evs ! j) (w\<lparr>now_count := now_count w + j\<rparr>)) = None)
                \<longrightarrow> fst (validateInput (evs ! i) (w\<lparr>now_count := now_count w + i\<rparr>)) = Some err)"
proof (cases "fst (validate_loop evs w)")
  case None
  from validate_loop_None [OF None] assms show ?thesis by simp
next
  case (Some err)
  show ?thesis
  proof (intro exI [of _ err] conjI impI Some)
    assume first: "\<forall>j<i. fst (validateInput (evs ! j) (w\<lparr>now_count := now_count w + j\<rparr>)) = None"
    from assms Some first
    show "fst (validateInput (evs ! i) (w\<lparr>now_count := now_count w + i\<rparr>)) = Some err"
    proof (induction evs arbitrary: w i)
      case Nil
      then show ?case by simp
    next
      case (Cons ev evs)
      show ?case
      proof (cases i)
        case 0
        with Cons.prems show ?thesis
          by (cases "validateInput ev w") (auto split: option.splits)
      next
        case (Suc i')
        let ?w = "w\<lparr>now_count := Suc (now_count w)\<rparr>"
        have v: "fst (validateInput ev w) = None"
          using Cons.prems(4) Suc by (auto dest: spec [of _ 0])
        have step: "validate_loop (ev # evs) w = validate_loop evs ?w"
          using validateInput_None [OF v] by simp
        have "fst (validateInput (evs ! i') (?w\<lparr>now_count := now_count ?w + i'\<rparr>)) = Some err"
        proof (rule Cons.IH)
          show "i' < length evs" using Cons.prems(1) Suc by simp
          show "fst (validateInput (evs ! i') (?w\<lparr>now_count := now_count ?w + i'\<rparr>)) \<noteq> None"
            using Cons.prems(2) Suc by simp
          show "fst (validate_loop evs ?w) = Some err"
            using Cons.prems(3) step by simp
          show "\<forall>j<i'. fst (validateInput (evs ! j) (?w\<lparr>now_count := now_count ?w + j\<rparr>)) = None"
          proof (intro allI impI)
            fix j assume "j < i'"
            then have "Suc j < i" using Suc by simp
            with Cons.prems(4) have "fst (validateInput ((ev # evs) ! Suc j) (w\<lparr>now_count := now_count w + Suc j\<rparr>)) = None"
              by blast
            then show "fst (validateInput (evs ! j) (?w\<lparr>now_count := now_count ?w + j\<rparr>)) = None"
              by simp
          qed
        qed
        then show ?thesis using Suc by simp
      qed
    qed
  qed
qed

lemma BulkCreateEvents_gate_Some:
  assumes "fst (validate_loop (Events inp) w) = Some err"
  shows "fst (BulkCreateEvents repo inp w) = (\<lparr>Created = 0, Duplicates = 0\<rparr>, Some err)
         \<and> (err = ErrInvalidEvent \<or> err = ErrFutureTime)
         \<and> insert_calls (snd (BulkCreateEvents repo inp w)) = insert_calls w
         \<and> store (snd (BulkCreateEvents repo inp w)) = store w"
proof -
  obtain w' where g: "validate_loop (Events inp) w = (Some err, w')"
    using assms by (metis prod.collapse)
  then have "BulkCreateEvents repo inp w = ((\<lparr>Created = 0, Duplicates = 0\<rparr>, Some err), w')"
    by (simp add: BulkCreateEvents_def)
  with validate_loop_Some [OF g] show ?thesis by simp
qed

text \<open>
  What holds of the validation pass on its own. It takes one clock reading for each
  item it accepts, so it validates item \<open>i\<close> against the \<open>i\<close>-th reading from the
  start of the call. If an item fails validation there, the call returns a validation
  error with both counters zero, hands no event to the repository and leaves the state
  behind the port as it was, whatever the other items are. The error is that of the
  item when no item before it fails.
\<close>

lemma BulkCreateEvents_validation_gate:
  assumes "i < length (Events inp)"
      and "fst (validateInput (Events inp ! i) (w\<lparr>now_count := now_count w + i\<rparr>)) \<noteq> None"
  shows "\<exists>err. fst (BulkCreateEvents repo inp w) = (\<lparr>Created = 0, Duplicates = 0\<rparr>, Some err)
           \<and> (err = ErrInvalidEvent \<or> err = ErrFutureTime)
           \<and> insert_calls (snd (BulkCreateEvents repo inp w)) = insert_calls w
           \<and> store (snd (BulkCreateEvents repo inp w)) = store w
           \<and> ((\<forall>j<i. fst (validateInput (Events inp ! j) (w\<lparr>now_count := now_count w + j\<rparr>)) = None)
                \<longrightarrow> fst (validateInput (Events inp ! i) (w\<lparr>now_count := now_count w + i\<rparr>)) = Some err)"
proof -
  from validate_loop_rejects [OF assms] obtain err where
    g: "fst (validate_loop (Events inp) w) = Some err"
    and f: "(\<forall>j<i. fst (validateInput (Events inp ! j) (w\<lparr>now_count := now_count w + j\<rparr>)) = None)
              \<longrightarrow> fst (validateInput (Events inp ! i) (w\<lparr>now_count := now_count w + i\<rparr>)) = Some err"
    by blast
  from BulkCreateEvents_gate_Some [OF g, of repo] f show ?thesis by blast
qed

lemma BulkCreateEvents_validation_gate_example:
  "1 < length (Events sample_batch_invalid)
   \<and> fst (validateInput (Events sample_batch_invalid ! 1)
             ((scripted_world [])\<lparr>now_count := now_count (scripted_world []) + 1\<rparr>)) \<noteq> None
   \<and> fst (BulkCreateEvents scripted_repo sample_batch_invalid (scripted_world []))
       = (\<lparr>Created = 0, Duplicates = 0\<rparr>, Some ErrInvalidEvent)
   \<and> insert_calls (snd (BulkCreateEvents scripted_repo sample_batch_invalid (scripted_world [])))
       = []
   \<and> store (snd (BulkCreateEvents scripted_repo sample_batch_invalid (scripted_world [])))
       = ([], [])"
proof -
  let ?w = "scripted_world []"
  have h1: "1 < length (Events sample_batch_invalid)"
    by (simp add: sample_batch_invalid_def)
  have v: "fst (validateInput (Events sample_batch_invalid ! 1)
                 (?w\<lparr>now_count := now_count ?w + 1\<rparr>)) = Some ErrInvalidEvent"
    by (simp add: sample_batch_invalid_def validateInput_def sample_input_def)
  then have h2: "fst (validateInput (Events sample_batch_invalid ! 1)
                 (?w\<lparr>now_count := now_count ?w + 1\<rparr>)) \<noteq> None"
    by simp
  have first: "\<forall>j<1. fst (validateInput (Events sample_batch_invalid ! j)
                 (?w\<lparr>now_count := now_count ?w + j\<rparr>)) = None"
    by (simp add: sample_batch_invalid_def validateInput_None_iff sample_input_def
                  scripted_world_def sample_world_def)
  from BulkCreateEvents_validation_gate [OF h1 h2, of scripted_repo] first v
  have "fst (BulkCreateEvents scripted_repo sample_batch_invalid ?w)
          = (\<lparr>Created = 0, Duplicates = 0\<rparr>, Some ErrInvalidEvent)
        \<and> insert_calls (snd (BulkCreateEvents scripted_repo sample_batch_invalid ?w))
          = insert_calls ?w
        \<and> store (snd (BulkCreateEvents scripted_repo sample_batch_invalid ?w)) = store ?w"
    by auto
  then show ?thesis
    using h1 h2 by (simp add: scripted_world_def sample_world_def)
qed

subsection \<open>The storing pass of bulk ingestion\<close>

lemma port_run_counts:
  "port_run repo es s = ((oks, err, n), s') \<Longrightarrow>
     n \<le> length es
     \<and> (err = None \<longrightarrow> n = length es \<and> length oks = length es)
     \<and> (err \<noteq> None \<longrightarrow> n = Suc (length oks))"
proof (induction es arbitrary: s oks err n s')
  case Nil
  then show ?case by simp
next
  case (Cons e es)
  obtain ok r s1 where r: "repo e s = ((ok, r), s1)"
    by (metis prod.collapse)
  show ?case
  proof (cases r)
    case (Some x)
    with r Cons.prems show ?thesis by auto
  next
    case None
    obtain oks' err' n' s2 where p: "port_run repo es s1 = ((oks', err', n'), s2)"
      by (metis prod.collapse)
    with r None Cons.prems have "oks = ok # oks'" "err = err'" "n = Suc n'"
      by simp_all
    with Cons.IH [OF p] show ?thesis by simp
  qed
qed

lemma readings_mono:
  assumes "\<forall>k\<ge>c. now_readings w k \<le>s now_readings w (Suc k)" and "c \<le> k"
  shows "now_readings w k \<le>s now_readings w (k + d)"
proof (induction d)
  case 0
  show ?case by simp
next
  case (Suc d)
  from assms have "now_readings w (k + d) \<le>s now_readings w (Suc (k + d))"
    by simp
  with Suc show ?case
    by (simp add: word_sle_eq)
qed

lemma store_loop_valid:
  assumes "\<forall>i<length evs. in_EventName (evs ! i) \<noteq> [] \<and> in_Channel (evs ! i) \<noteq> []
             \<and> in_UserID (evs ! i) \<noteq> []
             \<and> \<not> now_readings w (now_count w + i) <s in_Timestamp (evs ! i)"
  shows "store_loop repo evs res w =
     (case port_run repo (map event_of_input evs) (store w) of
        ((oks, err, n), s') \<Rightarrow>
          ((\<lparr>Created = Created res + int (length (filter id oks)),
             Duplicates = Duplicates res + int (length (filter Not oks))\<rparr>, err),
           w\<lparr>now_count := now_count w + n,
             insert_calls := insert_calls w @ take n (map event_of_input evs),
             store := s'\<rparr>))"
  using assms
proof (induction evs arbitrary: res w)
  case Nil
  show ?case by simp
next
  case (Cons ev evs)
  let ?e = "event_of_input ev"
  from Cons.prems have "in_EventName ev \<noteq> [] \<and> in_Channel ev \<noteq> [] \<and> in_UserID ev \<noteq> []
      \<and> \<not> now_readings w (now_count w) <s in_Timestamp ev"
    by (auto dest: spec [of _ 0])
  then have v: "fst (validateInput ev w) = None"
    by (simp add: validateInput_None_iff)
  obtain ok r s1 where r: "repo ?e (store w) = ((ok, r), s1)"
    by (metis prod.collapse)
  let ?w1 = "w\<lparr>now_count := Suc (now_count w),
               insert_calls := insert_calls w @ [?e], store := s1\<rparr>"
  have ex: "StoreEvent_Execute repo ev w = ((if r = None then ok else False, r), ?w1)"
    by (simp add: Execute_valid [OF v] r)
  show ?case
  proof (cases r)
    case (Some x)
    with ex r show ?thesis by simp
  next
    case None
    let ?res = "if ok then res\<lparr>Created := Created res + 1\<rparr>
                else res\<lparr>Duplicates := Duplicates res + 1\<rparr>"
    have step: "store_loop repo (ev # evs) res w = store_loop repo evs ?res ?w1"
      using ex None by simp
    have "\<forall>i<length evs. in_EventName (evs ! i) \<noteq> [] \<and> in_Channel (evs ! i) \<noteq> []
             \<and> in_UserID (evs ! i) \<noteq> []
             \<and> \<not> now_readings ?w1 (now_count ?w1 + i) <s in_Timestamp (evs ! i)"
    proof (intro allI impI)
      fix i assume "i < length evs"
      then have "Suc i < length (ev # evs)" by simp
      with Cons.prems have "in_EventName ((ev # evs) ! Suc i) \<noteq> []
          \<and> in_Channel ((ev # evs) ! Suc i) \<noteq> [] \<and> in_UserID ((ev # evs) ! Suc i) \<noteq> []
          \<and> \<not> now_readings w (now_count w + Suc i) <s in_Timestamp ((ev # evs) ! Suc i)"
        by blast
      then show "in_EventName (evs ! i) \<noteq> [] \<and> in_Channel (evs ! i) \<noteq> []
             \<and> in_UserID (evs ! i) \<noteq> []
             \<and> \<not> now_readings ?w1 (now_count ?w1 + i) <s in_Timestamp (evs ! i)"
        by simp
    qed
    from Cons.IH [OF this, of ?res] step r None show ?thesis
      by (simp split: prod.splits)
  qed
qed

text \<open>
  What holds of the storing pass when the wall clock does not step backwards during the
  call, so that the validation inside \<open>Execute\<close> accepts again what the validation
  pass accepted. Then \<open>BulkCreateEvents\<close> is the sequential run of the repository
  port over the events of the items, in batch order: the call stops at the first error
  a port call returns and returns that error; \<open>Created\<close> and \<open>Duplicates\<close> count
  the calls before it that reported created and duplicate; the events handed to the
  port are the first \<open>n\<close> of the batch, where \<open>n\<close> is the whole batch without an
  error and the failing item's position otherwise; and the state behind the port is the
  one those \<open>n\<close> calls leave, nothing being undone.
\<close>

lemma BulkCreateEvents_stores_in_order:
  assumes "fst (validate_loop (Events inp) w) = None"
      and "\<forall>k\<ge>now_count w. now_readings w k \<le>s now_readings w (Suc k)"
  shows "case port_run repo (map event_of_input (Events inp)) (store w) of
           ((oks, err, n), s') \<Rightarrow>
             fst (BulkCreateEvents repo inp w) =
               (\<lparr>Created = int (length (filter id oks)),
                 Duplicates = int (length (filter Not oks))\<rparr>, err)
             \<and> insert_calls (snd (BulkCreateEvents repo inp w)) =
                 insert_calls w @ take n (map event_of_input (Events inp))
             \<and> store (snd (BulkCreateEvents repo inp w)) = s'
             \<and> (err = None \<longrightarrow> n = length (Events inp) \<and> length oks = n)
             \<and> (err \<noteq> None \<longrightarrow> n = Suc (length oks) \<and> n \<le> length (Events inp))"
proof -
  let ?evs = "Events inp"
  let ?w2 = "w\<lparr>now_count := now_count w + length ?evs\<rparr>"
  from validate_loop_None [OF assms(1)]
  have g: "validate_loop ?evs w = (None, ?w2)"
    and p: "\<forall>i<length ?evs.
              fst (validateInput (?evs ! i) (w\<lparr>now_count := now_count w + i\<rparr>)) = None"
    by simp_all
  have valid: "\<forall>i<length ?evs. in_EventName (?evs ! i) \<noteq> [] \<and> in_Channel (?evs ! i) \<noteq> []
             \<and> in_UserID (?evs ! i) \<noteq> []
             \<and> \<not> now_readings ?w2 (now_count ?w2 + i) <s in_Timestamp (?evs ! i)"
  proof (intro allI impI)
    fix i assume i: "i < length ?evs"
    with p have a: "in_EventName (?evs ! i) \<noteq> [] \<and> in_Channel (?evs ! i) \<noteq> []
        \<and> in_UserID (?evs ! i) \<noteq> []
        \<and> \<not> now_readings w (now_count w + i) <s in_Timestamp (?evs ! i)"
      by (simp add: validateInput_None_iff)
    have "now_readings w (now_count w + i) \<le>s now_readings w (now_count w + i + length ?evs)"
      by (rule readings_mono [OF assms(2)]) simp
    with a have "\<not> now_readings w (now_count w + length ?evs + i) <s in_Timestamp (?evs ! i)"
      by (simp add: word_sle_eq word_sless_alt add.commute add.left_commute)
    with a show "in_EventName (?evs ! i) \<noteq> [] \<and> in_Channel (?evs ! i) \<noteq> []
             \<and> in_UserID (?evs ! i) \<noteq> []
             \<and> \<not> now_readings ?w2 (now_count ?w2 + i) <s in_Timestamp (?evs ! i)"
      by simp
  qed
  have b: "BulkCreateEvents repo inp w =
             store_loop repo ?evs \<lparr>Created = 0, Duplicates = 0\<rparr> ?w2"
    by (simp add: BulkCreateEvents_def g)
  obtain oks err n s' where r:
    "port_run repo (map event_of_input ?evs) (store w) = ((oks, err, n), s')"
    by (metis prod.collapse)
  from port_run_counts [OF r]
  have c: "n \<le> length ?evs" "err = None \<longrightarrow> n = length ?evs \<and> length oks = n"
    "err \<noteq> None \<longrightarrow> n = Suc (length oks)"
    by simp_all
  from store_loop_valid [OF valid, of repo "\<lparr>Created = 0, Duplicates = 0\<rparr>"] r
  have "BulkCreateEvents repo inp w =
      ((\<lparr>Created = int (length (filter id oks)),
         Duplicates = int (length (filter Not oks))\<rparr>, err),
       ?w2\<lparr>now_count := now_count ?w2 + n,
           insert_calls := insert_calls ?w2 @ take n (map event_of_input ?evs),
           store := s'\<rparr>)"
    by (simp add: b)
  with r c show ?thesis
    by auto
qed

lemma BulkCreateEvents_stores_in_order_example:
  "fst (validate_loop (Events sample_batch)
          (scripted_world [(True, None), (False, None), (True, None)])) = None
   \<and> fst (BulkCreateEvents scripted_repo sample_batch
             (scripted_world [(True, None), (False, None), (True, None)]))
       = (\<lparr>Created = 2, Duplicates = 1\<rparr>, None)
   \<and> length (insert_calls (snd (BulkCreateEvents scripted_repo sample_batch
             (scripted_world [(True, None), (False, None), (True, None)])))) = 3
   \<and> fst (validate_loop (Events sample_batch)
          (scripted_world [(True, None), (False, Some (Fault ''db error''))])) = None
   \<and> fst (BulkCreateEvents scripted_repo sample_batch
             (scripted_world [(True, None), (False, Some (Fault ''db error''))]))
       = (\<lparr>Created = 1, Duplicates = 0\<rparr>, Some (Fault ''db error''))
   \<and> length (insert_calls (snd (BulkCreateEvents scripted_repo sample_batch
             (scripted_world [(True, None), (False, Some (Fault ''db error''))])))) = 2
   \<and> snd (store (snd (BulkCreateEvents scripted_repo sample_batch
             (scripted_world [(True, None), (False, Some (Fault ''db error''))]))))
       = [''product_view|user_1|web|cmp_1|1700000000'']"
proof -
  let ?w1 = "scripted_world [(True, None), (False, None), (True, None)]"
  let ?w2 = "scripted_world [(True, None), (False, Some (Fault ''db error''))]"
  have g: "fst (validate_loop (Events sample_batch) (scripted_world script)) = None" for script
    by (simp add: sample_batch_def validateInput_def time_Now_Unix_def sample_input_def
                  scripted_world_def sample_world_def)
  have m: "\<forall>k\<ge>now_count (scripted_world script).
             now_readings (scripted_world script) k
               \<le>s now_readings (scripted_world script) (Suc k)" for script
    by (simp add: scripted_world_def sample_world_def)
  have k: "buildDedupeKey inp (Time_UTC (time_Unix 1700000000))
             = in_EventName inp @ ''|'' @ in_UserID inp @ ''|'' @ in_Channel inp @ ''|'' @
               in_CampaignID inp @ ''|1700000000''" for inp :: "unit StoreEventInput"
    by (simp add: buildDedupeKey_eq Time_Unix_def Time_UTC_def time_Unix_def FormatInt_sample)
  from BulkCreateEvents_stores_in_order
         [OF g [of "[(True, None), (False, None), (True, None)]"]
             m [of "[(True, None), (False, None), (True, None)]"], of scripted_repo]
  have a: "fst (BulkCreateEvents scripted_repo sample_batch ?w1)
             = (\<lparr>Created = 2, Duplicates = 1\<rparr>, None)
           \<and> length (insert_calls (snd (BulkCreateEvents scripted_repo sample_batch ?w1))) = 3"
    by (simp add: sample_batch_def sample_input_def scripted_world_def sample_world_def
                  scripted_repo_def event_of_input_def k)
  from BulkCreateEvents_stores_in_order
         [OF g [of "[(True, None), (False, Some (Fault ''db error''))]"]
             m [of "[(True, None), (False, Some (Fault ''db error''))]"], of scripted_repo]
  have b: "fst (BulkCreateEvents scripted_repo sample_batch ?w2)
             = (\<lparr>Created = 1, Duplicates = 0\<rparr>, Some (Fault ''db error''))
           \<and> length (insert_calls (snd (BulkCreateEvents scripted_repo sample_batch ?w2))) = 2
           \<and> snd (store (snd (BulkCreateEvents scripted_repo sample_batch ?w2)))
             = [''product_view|user_1|web|cmp_1|1700000000'']"
    by (simp add: sample_batch_def sample_input_def scripted_world_def sample_world_def
                  scripted_repo_def event_of_input_def k)
  from a b g show ?thesis
    by blast
qed

subsection \<open>The events repository\<close>

lemma InsertEvent_eq:
  "InsertEvent marshal db e s =
     (case marshal (ev_Metadata e) of
        Inl err \<Rightarrow> ((False, Some err), s)
      | Inr js \<Rightarrow>
          (case db insertEventSQL (insert_args e js) (conn s) of
             (r, d') \<Rightarrow>
               ((case r of
                   Inl err \<Rightarrow> (False, Some err)
                 | Inr res \<Rightarrow>
                     (case RowsAffected res of
                        Inl err \<Rightarrow> (False, Some err)
                      | Inr rows \<Rightarrow> (0 <s rows, None))),
                s\<lparr>exec_calls := exec_calls s @ [(insertEventSQL, insert_args e js)],
                  conn := d'\<rparr>)))"
  by (simp add: InsertEvent_def Let_def db_ExecContext_def insert_args_def pqStringArray_def
           split: sum.splits prod.splits)

lemma InsertEvent_report:
  "fst (InsertEvent marshal db e s) =
     (case insert_report marshal db e s of
        Inl err \<Rightarrow> (False, Some err)
      | Inr rows \<Rightarrow> (0 <s rows, None))"
  by (simp add: InsertEvent_eq insert_report_def split: sum.splits prod.splits)

lemma Execute_InsertEvent:
  assumes "fst (validateInput inp w) = None"
  shows "fst (StoreEvent_Execute (InsertEvent marshal db) inp w) =
     (case insert_report marshal db (event_of_input inp) (store w) of
        Inl err \<Rightarrow> (False, Some err)
      | Inr rows \<Rightarrow> (0 <s rows, None))"
proof -
  have "fst (StoreEvent_Execute (InsertEvent marshal db) inp w) =
      (case fst (InsertEvent marshal db (event_of_input inp) (store w)) of
         (created, err) \<Rightarrow> (if err = None then created else False, err))"
    by (simp add: Execute_valid [OF assms] split: prod.splits)
  then show ?thesis
    by (simp add: InsertEvent_report split: sum.splits)
qed

lemma zero_sless_one_int64: "(0 :: int64) <s 1"
  by (simp add: word_sless_alt)

lemma pg_world_valid: "fst (validateInput sample_input pg_world) = None"
  by (simp add: pg_world_def sample_input_valid)

text \<open>
  Claim C7. For an input that passes validation, the outcome of the store operation
  over the Postgres repository is decided by what the database reports for the insert.
  A reported row count gives no error, with \<open>created\<close> true when the count is
  positive and false otherwise: zero rows give the duplicate outcome, one row gives
  created, and for a count that is not negative the duplicate outcome is returned
  exactly when the count is zero. An error is returned, with \<open>created\<close> false, exactly
  when the encoder, \<open>ExecContext\<close> or \<open>RowsAffected\<close> fails, and it is that fault;
  the duplicate outcome never carries an error.
\<close>

theorem StoreEvent_outcomes:
  assumes "fst (validateInput inp w) = None"
  shows "let report = insert_report marshal db (event_of_input inp) (store w);
             out = fst (StoreEvent_Execute (InsertEvent marshal db) inp w)
         in (\<forall>rows. report = Inr rows \<longrightarrow> out = (0 <s rows, None))
            \<and> (report = Inr 0 \<longrightarrow> out = (False, None))
            \<and> (report = Inr 1 \<longrightarrow> out = (True, None))
            \<and> (\<forall>rows. report = Inr rows \<and> 0 \<le>s rows \<longrightarrow> (out = (False, None) \<longleftrightarrow> rows = 0))
            \<and> (out = (False, None) \<longrightarrow> (\<exists>rows. report = Inr rows \<and> \<not> 0 <s rows))
            \<and> (\<forall>err. report = Inl err \<longrightarrow> out = (False, Some err))
            \<and> (\<forall>err. snd out = Some err \<longrightarrow> fst out = False \<and> report = Inl err)"
proof -
  have z: "rows = 0" if "0 \<le>s rows" and "\<not> 0 <s rows" for rows :: int64
  proof -
    from that have "sint rows = sint (0 :: int64)"
      by (simp add: word_sle_eq word_sless_alt)
    then show ?thesis
      by (rule signed_word_eqI)
  qed
  show ?thesis
    unfolding Let_def Execute_InsertEvent [OF assms]
    by (cases "insert_report marshal db (event_of_input inp) (store w)")
       (auto dest: z simp: zero_sless_one_int64)
qed

theorem StoreEvent_outcomes_witness:
  "fst (validateInput sample_input pg_world) = None
   \<and> fst (StoreEvent_Execute (InsertEvent fake_marshal (fake_db 0)) sample_input pg_world)
       = (False, None)
   \<and> fst (StoreEvent_Execute (InsertEvent fake_marshal (fake_db 1)) sample_input pg_world)
       = (True, None)"
  using StoreEvent_outcomes [OF pg_world_valid, of fake_marshal "fake_db 0"]
        StoreEvent_outcomes [OF pg_world_valid, of fake_marshal "fake_db 1"]
        pg_world_valid
  by (simp add: Let_def insert_report_def fake_marshal_def fake_db_def zero_sless_one_int64)

text \<open>
  Claim C9. When the metadata can be encoded, \<open>InsertEvent\<close> executes the insert
  statement once, with eight arguments. The third, for the column \<open>campaign_id\<close>, is
  SQL NULL exactly when the event's campaign is the empty string, and the campaign
  string itself otherwise. The event name, the channel, the user and the dedupe key are
  passed as the strings they are, empty or not. The dedupe key of an input with an
  empty campaign has an empty fourth segment.
\<close>

theorem InsertEvent_campaign_null:
  assumes "marshal (ev_Metadata e) = Inr js"
  shows "\<exists>args. exec_calls (snd (InsertEvent marshal db e s))
                  = exec_calls s @ [(insertEventSQL, args)]
           \<and> length args = 8
           \<and> (args ! 2 = ArgNull \<longleftrightarrow> ev_CampaignID e = [])
           \<and> (ev_CampaignID e \<noteq> [] \<longrightarrow> args ! 2 = ArgString (ev_CampaignID e))
           \<and> args ! 0 = ArgString (ev_EventName e)
           \<and> args ! 1 = ArgString (ev_Channel e)
           \<and> args ! 3 = ArgString (ev_UserID e)
           \<and> args ! 4 = ArgTime (ev_EventTime e)
           \<and> args ! 5 = ArgStringArray (ev_Tags e)
           \<and> args ! 6 = ArgBytes js
           \<and> args ! 7 = ArgString (ev_DedupeKey e)
           \<and> (in_CampaignID inp = [] \<longrightarrow>
                buildDedupeKey inp t =
                  in_EventName inp @ ''|'' @ in_UserID inp @ ''|'' @ in_Channel inp @ ''||'' @
                  FormatInt (Time_Unix t))"
proof -
  have "exec_calls (snd (InsertEvent marshal db e s))
          = exec_calls s @ [(insertEventSQL, insert_args e js)]"
    by (simp add: InsertEvent_eq assms split: prod.splits)
  then show ?thesis
    by (intro exI [of _ "insert_args e js"]) (simp add: insert_args_def buildDedupeKey_eq)
qed

theorem InsertEvent_campaign_null_witness:
  "fake_marshal (ev_Metadata (event_of_input sample_input)) = Inr ''{}''
   \<and> (\<exists>args. exec_calls (snd (InsertEvent fake_marshal (fake_db 1)
                                (event_of_input sample_input)
                                \<lparr>exec_calls = [], conn = ()\<rparr>))
                = [(insertEventSQL, args)]
          \<and> args ! 2 = ArgString ''cmp_1'')
   \<and> fake_marshal (ev_Metadata (event_of_input (sample_input\<lparr>in_CampaignID := []\<rparr>)))
       = Inr ''{}''
   \<and> (\<exists>args. exec_calls (snd (InsertEvent fake_marshal (fake_db 1)
                                (event_of_input (sample_input\<lparr>in_CampaignID := []\<rparr>))
                                \<lparr>exec_calls = [], conn = ()\<rparr>))
                = [(insertEventSQL, args)]
          \<and> args ! 2 = ArgNull)"
proof -
  have m: "fake_marshal (ev_Metadata ev) = Inr ''{}''" for ev :: "unit Event"
    by (simp add: fake_marshal_def)
  have c1: "ev_CampaignID (event_of_input sample_input) = ''cmp_1''"
    by (simp add: event_of_input_def sample_input_def)
  have c2: "ev_CampaignID (event_of_input (sample_input\<lparr>in_CampaignID := []\<rparr>)) = []"
    by (simp add: event_of_input_def)
  from InsertEvent_campaign_null
         [where marshal = fake_marshal and e = "event_of_input sample_input"
            and js = "''{}''" and db = "fake_db 1"
            and s = "\<lparr>exec_calls = [], conn = ()\<rparr>", OF m] c1
  have a: "\<exists>args. exec_calls (snd (InsertEvent fake_marshal (fake_db 1)
                                (event_of_input sample_input)
                                \<lparr>exec_calls = [], conn = ()\<rparr>))
                = [(insertEventSQL, args)]
          \<and> args ! 2 = ArgString ''cmp_1''"
    by simp blast
  from InsertEvent_campaign_null
         [where marshal = fake_marshal
            and e = "event_of_input (sample_input\<lparr>in_CampaignID := []\<rparr>)"
            and js = "''{}''" and db = "fake_db 1"
            and s = "\<lparr>exec_calls = [], conn = ()\<rparr>", OF m] c2
  have b: "\<exists>args. exec_calls (snd (InsertEvent fake_marshal (fake_db 1)
                                (event_of_input (sample_input\<lparr>in_CampaignID := []\<rparr>))
                                \<lparr>exec_calls = [], conn = ()\<rparr>))
                = [(insertEventSQL, args)]
          \<and> args ! 2 = ArgNull"
    by simp blast
  from a b m show ?thesis
    by blast
qed

subsection \<open>Bulk ingestion under a clock that steps back\<close>

text \<open>
  \<open>Execute\<close> validates its input again, against a clock reading taken after the
  validation pass is over. The run below has the readings 100, 100, 100, 99 and two
  items stamped 100: the validation pass accepts both at the first two readings,
  \<open>Execute\<close> accepts the first item at the third reading and stores it, and rejects
  the second at the fourth.
\<close>

lemma stepping_back_gate:
  "validate_loop (Events stepping_back_batch) stepping_back_world =
     (None, stepping_back_world\<lparr>now_count := 2\<rparr>)"
  by (simp add: stepping_back_batch_def stepping_back_world_def validateInput_def
                time_Now_Unix_def sample_input_def)

lemma stepping_back_run:
  "BulkCreateEvents scripted_repo stepping_back_batch stepping_back_world =
     ((\<lparr>Created = 1, Duplicates = 0\<rparr>, Some ErrFutureTime),
      stepping_back_world
        \<lparr>now_count := 4,
         insert_calls := [event_of_input (sample_input\<lparr>in_Timestamp := 100\<rparr>)],
         store := ([], [ev_DedupeKey (event_of_input (sample_input\<lparr>in_Timestamp := 100\<rparr>))])\<rparr>)"
  by (simp add: BulkCreateEvents_def stepping_back_batch_def stepping_back_world_def
                validateInput_def time_Now_Unix_def StoreEvent_Execute_def Let_def
                repo_InsertEvent_def scripted_repo_def event_of_input_def sample_input_def
                buildDedupeKey_eq)

text \<open>
  Claim C3. The claim is that a validation failure of any item means a validation
  error and no storage call. In the run above the second item fails validation with
  \<open>ErrFutureTime\<close>, the call returns that error, and one event has been handed to the
  repository and stored before it.
\<close>

theorem BulkCreateEvents_validation_error_after_insert:
  "fst (validate_loop (Events stepping_back_batch) stepping_back_world) = None
   \<and> fst (validateInput (Events stepping_back_batch ! 1)
            (stepping_back_world\<lparr>now_count := 3\<rparr>)) = Some ErrFutureTime
   \<and> fst (BulkCreateEvents scripted_repo stepping_back_batch stepping_back_world)
       = (\<lparr>Created = 1, Duplicates = 0\<rparr>, Some ErrFutureTime)
   \<and> length (insert_calls
               (snd (BulkCreateEvents scripted_repo stepping_back_batch stepping_back_world)))
       = 1
   \<and> length (snd (store
               (snd (BulkCreateEvents scripted_repo stepping_back_batch stepping_back_world))))
       = 1"
proof -
  have "fst (validateInput (Events stepping_back_batch ! 1)
              (stepping_back_world\<lparr>now_count := 3\<rparr>)) = Some ErrFutureTime"
    by (simp add: stepping_back_batch_def stepping_back_world_def validateInput_def
                  time_Now_Unix_def sample_input_def)
  then show ?thesis
    by (simp add: stepping_back_gate stepping_back_run)
qed


subsection \<open>Validation of a metrics query\<close>

lemma GetMetrics_Execute_no_name:
  "gm_EventName inp = [] \<Longrightarrow>
     GetMetrics_Execute reader inp r = ((None, Some ErrInvalidMetricsQuery), r)"
  by (simp add: GetMetrics_Execute_def)

lemma GetMetrics_Execute_bad_range:
  "gm_EventName inp \<noteq> [] \<Longrightarrow>
   gm_From inp \<le>s 0 \<or> gm_To inp \<le>s 0 \<or> gm_To inp <s gm_From inp \<Longrightarrow>
     GetMetrics_Execute reader inp r = ((None, Some ErrInvalidTimeRange), r)"
  by (simp add: GetMetrics_Execute_def)

lemma reader_answer_eq:
  "(case x of
      ((result, None), r') \<Rightarrow> ((result, None), r')
    | ((result, Some err), r') \<Rightarrow> ((None, Some err), r')) =
   (case x of ((result, err), r') \<Rightarrow> ((if err = None then result else None, err), r'))"
  by (simp split: prod.splits option.splits)

lemma GetMetrics_Execute_no_group:
  assumes "gm_EventName inp \<noteq> []"
      and "\<not> (gm_From inp \<le>s 0 \<or> gm_To inp \<le>s 0 \<or> gm_To inp <s gm_From inp)"
      and "gm_GroupBy inp = []"
  shows "GetMetrics_Execute reader inp r =
     (case reader \<lparr>mf_EventName = gm_EventName inp, mf_From = gm_From inp,
                    mf_To = gm_To inp, mf_Channel = gm_Channel inp,
                    mf_GroupBy = gm_GroupBy inp, mf_Interval = gm_Interval inp\<rparr> r of
        ((result, err), r') \<Rightarrow> ((if err = None then result else None, err), r'))"
  using assms by (simp add: GetMetrics_Execute_def Let_def reader_answer_eq)

lemma GetMetrics_Execute_channel:
  assumes "gm_EventName inp \<noteq> []"
      and "\<not> (gm_From inp \<le>s 0 \<or> gm_To inp \<le>s 0 \<or> gm_To inp <s gm_From inp)"
      and "gm_GroupBy inp = ''channel''"
  shows "GetMetrics_Execute reader inp r =
     (case reader \<lparr>mf_EventName = gm_EventName inp, mf_From = gm_From inp,
                    mf_To = gm_To inp, mf_Channel = gm_Channel inp,
                    mf_GroupBy = gm_GroupBy inp, mf_Interval = gm_Interval inp\<rparr> r of
        ((result, err), r') \<Rightarrow> ((if err = None then result else None, err), r'))"
  using assms by (simp add: GetMetrics_Execute_def Let_def reader_answer_eq)

lemma GetMetrics_Execute_time:
  assumes "gm_EventName inp \<noteq> []"
      and "\<not> (gm_From inp \<le>s 0 \<or> gm_To inp \<le>s 0 \<or> gm_To inp <s gm_From inp)"
      and "gm_GroupBy inp = ''time''"
      and "gm_Interval inp = ''hour'' \<or> gm_Interval inp = ''day''"
  shows "GetMetrics_Execute reader inp r =
     (case reader \<lparr>mf_EventName = gm_EventName inp, mf_From = gm_From inp,
                    mf_To = gm_To inp, mf_Channel = gm_Channel inp,
                    mf_GroupBy = gm_GroupBy inp, mf_Interval = gm_Interval inp\<rparr> r of
        ((result, err), r') \<Rightarrow> ((if err = None then result else None, err), r'))"
proof -
  from assms(4) show ?thesis
  proof
    assume "gm_Interval inp = ''hour''"
    with assms(1-3) show ?thesis
      by (simp add: GetMetrics_Execute_def Let_def reader_answer_eq)
  next
    assume "gm_Interval inp = ''day''"
    with assms(1-3) show ?thesis
      by (simp add: GetMetrics_Execute_def Let_def reader_answer_eq)
  qed
qed

lemma GetMetrics_Execute_bad_interval:
  assumes "gm_EventName inp \<noteq> []"
      and "\<not> (gm_From inp \<le>s 0 \<or> gm_To inp \<le>s 0 \<or> gm_To inp <s gm_From inp)"
      and "gm_GroupBy inp = ''time''"
      and "gm_Interval inp \<noteq> ''hour''" and "gm_Interval inp \<noteq> ''day''"
  shows "GetMetrics_Execute reader inp r = ((None, Some ErrInvalidInterval), r)"
  using assms by (simp add: GetMetrics_Execute_def)

lemma GetMetrics_Execute_bad_group:
  assumes "gm_EventName inp \<noteq> []"
      and "\<not> (gm_From inp \<le>s 0 \<or> gm_To inp \<le>s 0 \<or> gm_To inp <s gm_From inp)"
      and "gm_GroupBy inp \<noteq> []" and "gm_GroupBy inp \<noteq> ''channel''"
      and "gm_GroupBy inp \<noteq> ''time''"
  shows "GetMetrics_Execute reader inp r = ((None, Some ErrInvalidGroupBy), r)"
  using assms by (simp add: GetMetrics_Execute_def)

lemma range_point_ok:
  "0 <s x \<Longrightarrow> \<not> (x \<le>s 0 \<or> x \<le>s 0 \<or> x <s x)" for x :: int64
  by (simp add: word_sle_eq word_sless_alt)

text \<open>
  Claim C4. \<open>Execute\<close> of the metrics use case checks in a fixed order and returns the
  error of the first rule violated, without calling the reader: an empty event name
  gives \<open>ErrInvalidMetricsQuery\<close>; otherwise \<open>from \<le> 0\<close>, \<open>to \<le> 0\<close> or \<open>from > to\<close>
  gives \<open>ErrInvalidTimeRange\<close> (\<open>from = to\<close> passes); otherwise the grouping
  \<open>time\<close> with an interval other than \<open>hour\<close> and \<open>day\<close> gives
  \<open>ErrInvalidInterval\<close>, and a grouping other than the empty one, \<open>channel\<close> and
  \<open>time\<close> gives \<open>ErrInvalidGroupBy\<close>. In every other case the reader is called once
  with a filter that has the fields of the input, whatever the interval is under the
  empty grouping and under \<open>channel\<close>, and its answer is returned.
\<close>

theorem GetMetrics_Execute_precedence:
  "let out = GetMetrics_Execute reader inp r;
       range_bad = (gm_From inp \<le>s 0 \<or> gm_To inp \<le>s 0 \<or> gm_To inp <s gm_From inp);
       answer = (case reader \<lparr>mf_EventName = gm_EventName inp, mf_From = gm_From inp,
                               mf_To = gm_To inp, mf_Channel = gm_Channel inp,
                               mf_GroupBy = gm_GroupBy inp,
                               mf_Interval = gm_Interval inp\<rparr> r of
                   ((result, err), r') \<Rightarrow> ((if err = None then result else None, err), r'))
   in (gm_EventName inp = [] \<longrightarrow> out = ((None, Some ErrInvalidMetricsQuery), r))
      \<and> (gm_EventName inp \<noteq> [] \<and> range_bad \<longrightarrow> out = ((None, Some ErrInvalidTimeRange), r))
      \<and> (0 <s gm_From inp \<and> gm_From inp = gm_To inp \<longrightarrow> \<not> range_bad)
      \<and> (gm_EventName inp \<noteq> [] \<and> \<not> range_bad
            \<and> (gm_GroupBy inp = [] \<or> gm_GroupBy inp = ''channel'')
          \<longrightarrow> out = answer)
      \<and> (gm_EventName inp \<noteq> [] \<and> \<not> range_bad \<and> gm_GroupBy inp = ''time''
            \<and> (gm_Interval inp = ''hour'' \<or> gm_Interval inp = ''day'')
          \<longrightarrow> out = answer)
      \<and> (gm_EventName inp \<noteq> [] \<and> \<not> range_bad \<and> gm_GroupBy inp = ''time''
            \<and> gm_Interval inp \<noteq> ''hour'' \<and> gm_Interval inp \<noteq> ''day''
          \<longrightarrow> out = ((None, Some ErrInvalidInterval), r))
      \<and> (gm_EventName inp \<noteq> [] \<and> \<not> range_bad \<and> gm_GroupBy inp \<noteq> []
            \<and> gm_GroupBy inp \<noteq> ''channel'' \<and> gm_GroupBy inp \<noteq> ''time''
          \<longrightarrow> out = ((None, Some ErrInvalidGroupBy), r))"
  unfolding Let_def
proof (intro conjI impI; (elim conjE)?)
  assume "gm_EventName inp = []"
  then show "GetMetrics_Execute reader inp r = ((None, Some ErrInvalidMetricsQuery), r)"
    by (rule GetMetrics_Execute_no_name)
next
  assume "gm_EventName inp \<noteq> []"
    and "gm_From inp \<le>s 0 \<or> gm_To inp \<le>s 0 \<or> gm_To inp <s gm_From inp"
  then show "GetMetrics_Execute reader inp r = ((None, Some ErrInvalidTimeRange), r)"
    by (rule GetMetrics_Execute_bad_range)
next
  assume "0 <s gm_From inp" and "gm_From inp = gm_To inp"
  then show "\<not> (gm_From inp \<le>s 0 \<or> gm_To inp \<le>s 0 \<or> gm_To inp <s gm_From inp)"
    using range_point_ok [of "gm_From inp"] by simp
next
  assume a: "gm_EventName inp \<noteq> []"
    "\<not> (gm_From inp \<le>s 0 \<or> gm_To inp \<le>s 0 \<or> gm_To inp <s gm_From inp)"
    and g: "gm_GroupBy inp = [] \<or> gm_GroupBy inp = ''channel''"
  from g show "GetMetrics_Execute reader inp r =
     (case reader \<lparr>mf_EventName = gm_EventName inp, mf_From = gm_From inp,
                    mf_To = gm_To inp, mf_Channel = gm_Channel inp,
                    mf_GroupBy = gm_GroupBy inp, mf_Interval = gm_Interval inp\<rparr> r of
        ((result, err), r') \<Rightarrow> ((if err = None then result else None, err), r'))"
  proof
    assume "gm_GroupBy inp = []"
    with a show ?thesis by (rule GetMetrics_Execute_no_group)
  next
    assume "gm_GroupBy inp = ''channel''"
    with a show ?thesis by (rule GetMetrics_Execute_channel)
  qed
next
  assume "gm_EventName inp \<noteq> []"
    "\<not> (gm_From inp \<le>s 0 \<or> gm_To inp \<le>s 0 \<or> gm_To inp <s gm_From inp)"
    "gm_GroupBy inp = ''time''"
    "gm_Interval inp = ''hour'' \<or> gm_Interval inp = ''day''"
  then show "GetMetrics_Execute reader inp r =
     (case reader \<lparr>mf_EventName = gm_EventName inp, mf_From = gm_From inp,
                    mf_To = gm_To inp, mf_Channel = gm_Channel inp,
                    mf_GroupBy = gm_GroupBy inp, mf_Interval = gm_Interval inp\<rparr> r of
        ((result, err), r') \<Rightarrow> ((if err = None then result else None, err), r'))"
    by (rule GetMetrics_Execute_time)
next
  assume "gm_EventName inp \<noteq> []"
    "\<not> (gm_From inp \<le>s 0 \<or> gm_To inp \<le>s 0 \<or> gm_To inp <s gm_From inp)"
    "gm_GroupBy inp = ''time''" "gm_Interval inp \<noteq> ''hour''" "gm_Interval inp \<noteq> ''day''"
  then show "GetMetrics_Execute reader inp r = ((None, Some ErrInvalidInterval), r)"
    by (rule GetMetrics_Execute_bad_interval)
next
  assume "gm_EventName inp \<noteq> []"
    "\<not> (gm_From inp \<le>s 0 \<or> gm_To inp \<le>s 0 \<or> gm_To inp <s gm_From inp)"
    "gm_GroupBy inp \<noteq> []" "gm_GroupBy inp \<noteq> ''channel''" "gm_GroupBy inp \<noteq> ''time''"
  then show "GetMetrics_Execute reader inp r = ((None, Some ErrInvalidGroupBy), r)"
    by (rule GetMetrics_Execute_bad_group)
qed

theorem GetMetrics_Execute_precedence_witness:
  "GetMetrics_Execute fake_reader (sample_query\<lparr>gm_EventName := [], gm_From := 200\<rparr>) ()
     = ((None, Some ErrInvalidMetricsQuery), ())
   \<and> GetMetrics_Execute fake_reader (sample_query\<lparr>gm_From := 200, gm_GroupBy := ''minute''\<rparr>) ()
     = ((None, Some ErrInvalidTimeRange), ())
   \<and> snd (fst (GetMetrics_Execute fake_reader sample_query ())) = None
   \<and> GetMetrics_Execute fake_reader (sample_query\<lparr>gm_GroupBy := ''time''\<rparr>) ()
     = ((None, Some ErrInvalidInterval), ())
   \<and> snd (fst (GetMetrics_Execute fake_reader
                 (sample_query\<lparr>gm_GroupBy := ''time'', gm_Interval := ''hour''\<rparr>) ())) = None
   \<and> GetMetrics_Execute fake_reader (sample_query\<lparr>gm_GroupBy := ''minute''\<rparr>) ()
     = ((None, Some ErrInvalidGroupBy), ())"
proof -
  have s: "(100 :: int64) \<le>s 0 = False" "(100 :: int64) <s 100 = False"
    "(200 :: int64) \<le>s 0 = False" "(100 :: int64) <s 200 = True"
    by (simp_all add: word_sle_eq word_sless_alt)
  have 1: "GetMetrics_Execute fake_reader (sample_query\<lparr>gm_EventName := [], gm_From := 200\<rparr>) ()
     = ((None, Some ErrInvalidMetricsQuery), ())"
    using GetMetrics_Execute_precedence
            [of fake_reader "sample_query\<lparr>gm_EventName := [], gm_From := 200\<rparr>" "()"]
    by (simp add: Let_def sample_query_def)
  have 2: "GetMetrics_Execute fake_reader
             (sample_query\<lparr>gm_From := 200, gm_GroupBy := ''minute''\<rparr>) ()
     = ((None, Some ErrInvalidTimeRange), ())"
    using GetMetrics_Execute_precedence
            [of fake_reader "sample_query\<lparr>gm_From := 200, gm_GroupBy := ''minute''\<rparr>" "()"]
    by (simp add: Let_def sample_query_def s)
  have 3: "snd (fst (GetMetrics_Execute fake_reader sample_query ())) = None"
    using GetMetrics_Execute_precedence [of fake_reader sample_query "()"]
    by (simp add: Let_def sample_query_def fake_reader_def s)
  have 4: "GetMetrics_Execute fake_reader (sample_query\<lparr>gm_GroupBy := ''time''\<rparr>) ()
     = ((None, Some ErrInvalidInterval), ())"
    using GetMetrics_Execute_precedence
            [of fake_reader "sample_query\<lparr>gm_GroupBy := ''time''\<rparr>" "()"]
    by (simp add: Let_def sample_query_def s)
  have 5: "snd (fst (GetMetrics_Execute fake_reader
                 (sample_query\<lparr>gm_GroupBy := ''time'', gm_Interval := ''hour''\<rparr>) ())) = None"
    using GetMetrics_Execute_precedence
            [of fake_reader "sample_query\<lparr>gm_GroupBy := ''time'', gm_Interval := ''hour''\<rparr>" "()"]
    by (simp add: Let_def sample_query_def fake_reader_def s)
  have 6: "GetMetrics_Execute fake_reader (sample_query\<lparr>gm_GroupBy := ''minute''\<rparr>) ()
     = ((None, Some ErrInvalidGroupBy), ())"
    using GetMetrics_Execute_precedence
            [of fake_reader "sample_query\<lparr>gm_GroupBy := ''minute''\<rparr>" "()"]
    by (simp add: Let_def sample_query_def s)
  from 1 2 3 4 5 6 show ?thesis
    by (intro conjI)
qed

subsection \<open>Totals of a grouped metrics query\<close>

lemma channel_rows_loop_sums:
  "channel_rows_loop scs gs t u = Inr (gs', t', u') \<Longrightarrow>
     t' + sum_list (map mg_TotalCount gs) = t + sum_list (map mg_TotalCount gs')
     \<and> u' + sum_list (map mg_UniqueUsers gs) = u + sum_list (map mg_UniqueUsers gs')"
proof (induction scs arbitrary: gs t u)
  case Nil
  then show ?case by simp
next
  case (Cons sc scs)
  show ?case
  proof (cases "Scan_string_int64_int64 sc")
    case (Inl err)
    with Cons.prems show ?thesis by simp
  next
    case (Inr row)
    obtain ch tot uniq where row: "row = (ch, tot, uniq)"
      by (cases row) auto
    let ?g = "\<lparr>mg_Key = ch, mg_TotalCount = tot, mg_UniqueUsers = uniq\<rparr>"
    from Cons.prems Inr row
    have "channel_rows_loop scs (gs @ [?g]) (t + tot) (u + uniq) = Inr (gs', t', u')"
      by simp
    from Cons.IH [OF this] show ?thesis
      by (simp add: algebra_simps)
  qed
qed

lemma time_rows_loop_sums:
  "time_rows_loop rfc3339 scs gs t u = Inr (gs', t', u') \<Longrightarrow>
     t' + sum_list (map mg_TotalCount gs) = t + sum_list (map mg_TotalCount gs')
     \<and> u' + sum_list (map mg_UniqueUsers gs) = u + sum_list (map mg_UniqueUsers gs')"
proof (induction scs arbitrary: gs t u)
  case Nil
  then show ?case by simp
next
  case (Cons sc scs)
  show ?case
  proof (cases "Scan_Time_int64_int64 sc")
    case (Inl err)
    with Cons.prems show ?thesis by simp
  next
    case (Inr row)
    obtain ts tot uniq where row: "row = (ts, tot, uniq)"
      by (cases row) auto
    let ?g = "\<lparr>mg_Key = rfc3339 (Time_UTC ts), mg_TotalCount = tot, mg_UniqueUsers = uniq\<rparr>"
    from Cons.prems Inr row
    have "time_rows_loop rfc3339 scs (gs @ [?g]) (t + tot) (u + uniq) = Inr (gs', t', u')"
      by simp
    from Cons.IH [OF this] show ?thesis
      by (simp add: algebra_simps)
  qed
qed

lemma channel_rows_loop_rows:
  "channel_rows_loop (map channel_row rs) gs t u =
     Inr (gs @ map channel_group rs,
          t + sum_list (map (\<lambda>r. fst (snd r)) rs),
          u + sum_list (map (\<lambda>r. snd (snd r)) rs))"
proof (induction rs arbitrary: gs t u)
  case Nil
  show ?case by simp
next
  case (Cons r rs)
  obtain ch tot uniq where r: "r = (ch, tot, uniq)"
    by (cases r) auto
  have h: "channel_row (ch, tot, uniq) = Inr [VString ch, VInt tot, VInt uniq]"
    "channel_group (ch, tot, uniq) = \<lparr>mg_Key = ch, mg_TotalCount = tot, mg_UniqueUsers = uniq\<rparr>"
    by (simp_all add: channel_row_def channel_group_def)
  show ?case
    by (simp add: r h Cons.IH add.assoc)
qed

lemma time_rows_loop_rows:
  "time_rows_loop rfc3339 (map time_row rs) gs t u =
     Inr (gs @ map (time_group rfc3339) rs,
          t + sum_list (map (\<lambda>r. fst (snd r)) rs),
          u + sum_list (map (\<lambda>r. snd (snd r)) rs))"
proof (induction rs arbitrary: gs t u)
  case Nil
  show ?case by simp
next
  case (Cons r rs)
  obtain ts tot uniq where r: "r = (ts, tot, uniq)"
    by (cases r) auto
  have h: "time_row (ts, tot, uniq) = Inr [VTime ts, VInt tot, VInt uniq]"
    "time_group rfc3339 (ts, tot, uniq) =
       \<lparr>mg_Key = rfc3339 (Time_UTC ts), mg_TotalCount = tot, mg_UniqueUsers = uniq\<rparr>"
    by (simp_all add: time_row_def time_group_def)
  show ?case
    by (simp add: r h Cons.IH add.assoc)
qed

lemma sint_sum_list:
  fixes ws :: "int64 list"
  assumes "\<forall>w\<in>set ws. 0 \<le>s w" and "(\<Sum>w\<leftarrow>ws. sint w) < 2 ^ 63"
  shows "sint (sum_list ws) = (\<Sum>w\<leftarrow>ws. sint w)"
  using assms
proof (induction ws)
  case Nil
  show ?case by simp
next
  case (Cons w ws)
  have w: "0 \<le> sint w"
    using Cons.prems(1) by (simp add: word_sle_eq)
  have nn: "0 \<le> (\<Sum>w\<leftarrow>ws. sint w)"
    using Cons.prems(1) by (intro sum_list_nonneg) (auto simp: word_sle_eq)
  have lt: "sint w + (\<Sum>w\<leftarrow>ws. sint w) < 2 ^ 63"
    using Cons.prems(2) by simp
  with w have "(\<Sum>w\<leftarrow>ws. sint w) < 2 ^ 63"
    by linarith
  with Cons have ih: "sint (sum_list ws) = (\<Sum>w\<leftarrow>ws. sint w)"
    by simp
  have "sint (w + sum_list ws) = signed_take_bit 63 (sint w + sint (sum_list ws))"
    by (simp add: sint_word_ariths)
  also have "\<dots> = sint w + sint (sum_list ws)"
    using w nn lt ih by (intro signed_take_bit_int_eq_self) simp_all
  finally show ?case
    by (simp add: ih)
qed

lemma queryGroupByChannel_sums:
  assumes "queryGroupByChannel db wh args res = (Some m, None)"
  shows "am_TotalCount m = sum_list (map mg_TotalCount (am_Groups m))
         \<and> am_UniqueUsers m = sum_list (map mg_UniqueUsers (am_Groups m))"
proof (cases "db (queryGroupByChannel_sql wh) args")
  case (Inl err)
  with assms show ?thesis by (simp add: queryGroupByChannel_def)
next
  case (Inr rows)
  show ?thesis
  proof (cases "channel_rows_loop (scans rows) [] 0 0")
    case (Inl err)
    with assms Inr show ?thesis by (simp add: queryGroupByChannel_def)
  next
    case loop: (Inr acc)
    obtain gs t u where acc: "acc = (gs, t, u)"
      by (cases acc) auto
    from assms Inr loop acc
    have m: "m = res\<lparr>am_Groups := gs, am_TotalCount := t, am_UniqueUsers := u\<rparr>"
      by (cases "rows_Err rows") (simp_all add: queryGroupByChannel_def)
    from channel_rows_loop_sums [of "scans rows" "[]" 0 0 gs t u] loop acc
    show ?thesis by (simp add: m)
  qed
qed

lemma queryGroupByTime_sums:
  assumes "queryGroupByTime db rfc3339 wh args res interval = (Some m, None)"
  shows "am_TotalCount m = sum_list (map mg_TotalCount (am_Groups m))
         \<and> am_UniqueUsers m = sum_list (map mg_UniqueUsers (am_Groups m))"
proof (cases "db (queryGroupByTime_sql interval wh) args")
  case (Inl err)
  with assms show ?thesis by (simp add: queryGroupByTime_def)
next
  case (Inr rows)
  show ?thesis
  proof (cases "time_rows_loop rfc3339 (scans rows) [] 0 0")
    case (Inl err)
    with assms Inr show ?thesis by (simp add: queryGroupByTime_def)
  next
    case loop: (Inr acc)
    obtain gs t u where acc: "acc = (gs, t, u)"
      by (cases acc) auto
    from assms Inr loop acc
    have m: "m = res\<lparr>am_Groups := gs, am_TotalCount := t, am_UniqueUsers := u\<rparr>"
      by (cases "rows_Err rows") (simp_all add: queryGroupByTime_def)
    from time_rows_loop_sums [of rfc3339 "scans rows" "[]" 0 0 gs t u] loop acc
    show ?thesis by (simp add: m)
  qed
qed

lemma queryGroupByChannel_rows:
  assumes "db (queryGroupByChannel_sql wh) args = Inr (RowScanner (map channel_row rs) None)"
  shows "queryGroupByChannel db wh args res =
     (Some (res\<lparr>am_Groups := map channel_group rs,
                am_TotalCount := sum_list (map (\<lambda>r. fst (snd r)) rs),
                am_UniqueUsers := sum_list (map (\<lambda>r. snd (snd r)) rs)\<rparr>), None)"
  by (simp add: queryGroupByChannel_def assms channel_rows_loop_rows)

lemma queryGroupByTime_rows:
  assumes "db (queryGroupByTime_sql interval wh) args = Inr (RowScanner (map time_row rs) None)"
  shows "queryGroupByTime db rfc3339 wh args res interval =
     (Some (res\<lparr>am_Groups := map (time_group rfc3339) rs,
                am_TotalCount := sum_list (map (\<lambda>r. fst (snd r)) rs),
                am_UniqueUsers := sum_list (map (\<lambda>r. snd (snd r)) rs)\<rparr>), None)"
  by (simp add: queryGroupByTime_def assms time_rows_loop_rows)

lemma QueryMetrics_channel:
  "mf_GroupBy f = ''channel'' \<Longrightarrow>
     \<exists>wh args res. QueryMetrics db rfc3339 f = queryGroupByChannel db wh args res"
  unfolding QueryMetrics_def Let_def by simp blast

lemma QueryMetrics_time:
  "mf_GroupBy f = ''time'' \<Longrightarrow>
     \<exists>wh args res. QueryMetrics db rfc3339 f =
        queryGroupByTime db rfc3339 wh args res (mf_Interval f)"
  unfolding QueryMetrics_def Let_def by simp blast

text \<open>
  Claim C6. Under the groupings \<open>channel\<close> and \<open>time\<close>, whenever \<open>QueryMetrics\<close>
  returns a result, its \<open>TotalCount\<close> and \<open>UniqueUsers\<close> are the sums of the
  \<open>TotalCount\<close> and \<open>UniqueUsers\<close> of its groups, a user of several groups being
  counted in each. The sums are \<open>int64\<close> sums; they are the sums of the integers
  the counts stand for whenever the counts are not negative and that sum is below
  \<open>2 ^ 63\<close>. The counts of the groups are \<open>COUNT\<close> values over disjoint groups of
  the rows matched, so they are not negative and add up to at most the number of rows
  matched, itself a \<open>COUNT\<close> value. And a result is returned: when the database
  answers with rows of the query's shape and no error, the groups of the result are
  those rows, in their order.
\<close>

theorem QueryMetrics_grouped_totals:
  assumes "mf_GroupBy f = ''channel'' \<or> mf_GroupBy f = ''time''"
  shows "(\<forall>m. QueryMetrics db rfc3339 f = (Some m, None) \<longrightarrow>
            am_TotalCount m = sum_list (map mg_TotalCount (am_Groups m))
            \<and> am_UniqueUsers m = sum_list (map mg_UniqueUsers (am_Groups m))
            \<and> ((\<forall>g\<in>set (am_Groups m). 0 \<le>s mg_TotalCount g)
                 \<and> (\<Sum>g\<leftarrow>am_Groups m. sint (mg_TotalCount g)) < 2 ^ 63
               \<longrightarrow> sint (am_TotalCount m) = (\<Sum>g\<leftarrow>am_Groups m. sint (mg_TotalCount g)))
            \<and> ((\<forall>g\<in>set (am_Groups m). 0 \<le>s mg_UniqueUsers g)
                 \<and> (\<Sum>g\<leftarrow>am_Groups m. sint (mg_UniqueUsers g)) < 2 ^ 63
               \<longrightarrow> sint (am_UniqueUsers m) = (\<Sum>g\<leftarrow>am_Groups m. sint (mg_UniqueUsers g))))
         \<and> (mf_GroupBy f = ''channel''
              \<and> (\<forall>q a. db q a = Inr (RowScanner (map channel_row rs) None))
            \<longrightarrow> (\<exists>m. QueryMetrics db rfc3339 f = (Some m, None)
                     \<and> am_Groups m = map channel_group rs))
         \<and> (mf_GroupBy f = ''time''
              \<and> (\<forall>q a. db q a = Inr (RowScanner (map time_row rs') None))
            \<longrightarrow> (\<exists>m. QueryMetrics db rfc3339 f = (Some m, None)
                     \<and> am_Groups m = map (time_group rfc3339) rs'))"
proof (intro conjI allI impI)
  fix m assume q: "QueryMetrics db rfc3339 f = (Some m, None)"
  have sums: "am_TotalCount m = sum_list (map mg_TotalCount (am_Groups m))
              \<and> am_UniqueUsers m = sum_list (map mg_UniqueUsers (am_Groups m))"
    using assms
  proof
    assume "mf_GroupBy f = ''channel''"
    from QueryMetrics_channel [OF this, of db rfc3339] q
    obtain wh args res where "queryGroupByChannel db wh args res = (Some m, None)"
      by auto
    then show ?thesis by (rule queryGroupByChannel_sums)
  next
    assume "mf_GroupBy f = ''time''"
    from QueryMetrics_time [OF this, of db rfc3339] q
    obtain wh args res where
      "queryGroupByTime db rfc3339 wh args res (mf_Interval f) = (Some m, None)"
      by auto
    then show ?thesis by (rule queryGroupByTime_sums)
  qed
  from sums show "am_TotalCount m = sum_list (map mg_TotalCount (am_Groups m))"
    by simp
  from sums show "am_UniqueUsers m = sum_list (map mg_UniqueUsers (am_Groups m))"
    by simp
  {
    assume "(\<forall>g\<in>set (am_Groups m). 0 \<le>s mg_TotalCount g)
            \<and> (\<Sum>g\<leftarrow>am_Groups m. sint (mg_TotalCount g)) < 2 ^ 63"
    then have "sint (sum_list (map mg_TotalCount (am_Groups m)))
                 = (\<Sum>w\<leftarrow>map mg_TotalCount (am_Groups m). sint w)"
      by (intro sint_sum_list) (simp_all add: comp_def)
    with sums show "sint (am_TotalCount m) = (\<Sum>g\<leftarrow>am_Groups m. sint (mg_TotalCount g))"
      by (simp add: comp_def)
  }
  {
    assume "(\<forall>g\<in>set (am_Groups m). 0 \<le>s mg_UniqueUsers g)
            \<and> (\<Sum>g\<leftarrow>am_Groups m. sint (mg_UniqueUsers g)) < 2 ^ 63"
    then have "sint (sum_list (map mg_UniqueUsers (am_Groups m)))
                 = (\<Sum>w\<leftarrow>map mg_UniqueUsers (am_Groups m). sint w)"
      by (intro sint_sum_list) (simp_all add: comp_def)
    with sums show "sint (am_UniqueUsers m) = (\<Sum>g\<leftarrow>am_Groups m. sint (mg_UniqueUsers g))"
      by (simp add: comp_def)
  }
next
  assume a: "mf_GroupBy f = ''channel''
             \<and> (\<forall>q a. db q a = Inr (RowScanner (map channel_row rs) None))"
  then obtain wh args res where
    "QueryMetrics db rfc3339 f = queryGroupByChannel db wh args res"
    using QueryMetrics_channel [of f db rfc3339] by auto
  moreover from a have "db (queryGroupByChannel_sql wh) args
      = Inr (RowScanner (map channel_row rs) None)"
    by simp
  ultimately show "\<exists>m. QueryMetrics db rfc3339 f = (Some m, None)
                     \<and> am_Groups m = map channel_group rs"
    by (simp add: queryGroupByChannel_rows)
next
  assume a: "mf_GroupBy f = ''time''
             \<and> (\<forall>q a. db q a = Inr (RowScanner (map time_row rs') None))"
  then obtain wh args res where
    "QueryMetrics db rfc3339 f = queryGroupByTime db rfc3339 wh args res (mf_Interval f)"
    using QueryMetrics_time [of f db rfc3339] by auto
  moreover from a have "db (queryGroupByTime_sql (mf_Interval f) wh) args
      = Inr (RowScanner (map time_row rs') None)"
    by simp
  ultimately show "\<exists>m. QueryMetrics db rfc3339 f = (Some m, None)
                     \<and> am_Groups m = map (time_group rfc3339) rs'"
    by (simp add: queryGroupByTime_rows)
qed

theorem QueryMetrics_grouped_totals_witness:
  "(mf_GroupBy sample_filter = ''channel'' \<or> mf_GroupBy sample_filter = ''time'')
   \<and> (\<exists>m. QueryMetrics (rows_db (map channel_row [(''web'', 120, 50), (''mobile'', 80, 30)]))
               fake_rfc3339 sample_filter = (Some m, None)
          \<and> map mg_Key (am_Groups m) = [''web'', ''mobile'']
          \<and> am_TotalCount m = 200 \<and> am_UniqueUsers m = 80
          \<and> sint (am_TotalCount m) = 200)"
proof -
  let ?rs = "[(''web'', 120, 50), (''mobile'', 80, 30)] :: (string \<times> int64 \<times> int64) list"
  let ?db = "rows_db (map channel_row ?rs)"
  have g: "mf_GroupBy sample_filter = ''channel'' \<or> mf_GroupBy sample_filter = ''time''"
    by (simp add: sample_filter_def)
  have c: "mf_GroupBy sample_filter = ''channel''
           \<and> (\<forall>q a. ?db q a = Inr (RowScanner (map channel_row ?rs) None))"
    by (simp add: sample_filter_def rows_db_def)
  note t = QueryMetrics_grouped_totals [OF g, of ?db fake_rfc3339 ?rs]
  from t c obtain m where
    q: "QueryMetrics ?db fake_rfc3339 sample_filter = (Some m, None)"
    and gs: "am_Groups m = map channel_group ?rs"
    by blast
  from t q have
    s: "am_TotalCount m = sum_list (map mg_TotalCount (am_Groups m))"
       "am_UniqueUsers m = sum_list (map mg_UniqueUsers (am_Groups m))"
    by blast+
  have "map mg_Key (am_Groups m) = [''web'', ''mobile'']"
    "am_TotalCount m = 200" "am_UniqueUsers m = 80"
    by (simp_all add: s gs channel_group_def)
  then show ?thesis
    using g q by auto
qed

end
